theory Spec2Isabelle
  imports Main
begin

section \<open>Data model (feed.go)\<close>

text \<open>
  The structs of feed.go. Plain structs are records; \<open>Feed\<close>, \<open>Entry\<close> and
  \<open>Source\<close> refer to each other and form one datatype family. A Go pointer field
  (\<open>*Text\<close>, \<open>*Generator\<close>, \<open>*Source\<close>, \<open>*Feed\<close>) is an \<open>option\<close>, with
  \<open>None\<close> for the nil pointer; a slice is a list. The datatype holds finite trees
  only, so an object graph that reaches itself through \<open>Source.Feed\<close> is outside the
  model.
\<close>

record Common =
  Base :: string
  Lang :: string

record Text =
  text_Common :: Common
  text_Type :: string
  text_Src :: string
  text_Body :: string

record Extension =
  ext_XMLName :: "string \<times> string"
  ext_XML :: string

record Person =
  person_Common :: Common
  person_Name :: string
  person_URI :: string
  person_Email :: string
  person_Extension :: "Extension list"

type_synonym TimeStr = string

record Category =
  category_Common :: Common
  category_Term :: string
  category_Scheme :: string
  category_Label :: string

record Generator =
  generator_Common :: Common
  generator_URI :: string
  generator_Version :: string
  generator_Text :: string

record Link =
  link_Common :: Common
  link_Href :: string
  link_Rel :: string
  link_Type :: string
  link_HrefLang :: string
  link_Title :: string
  link_Length :: string

datatype Feed = Feed
    (feed_Common: Common)
    (feed_Author: "Person list")
    (feed_Category: "Category list")
    (feed_Contributor: "Person list")
    (feed_Generator: "Generator option")
    (feed_Icon: string)
    (feed_ID: string)
    (feed_Link: "Link list")
    (feed_Logo: string)
    (feed_Rights: string)
    (feed_Subtitle: string)
    (feed_Title: string)
    (feed_Updated: TimeStr)
    (feed_Entry: "Entry list")
    (feed_Extension: "Extension list")
and Entry = Entry
    (entry_Common: Common)
    (entry_Author: "Person list")
    (entry_Category: "Category list")
    (entry_Content: "Text option")
    (entry_Contributor: "Person list")
    (entry_ID: string)
    (entry_Link: "Link list")
    (entry_Published: TimeStr)
    (entry_Rights: string)
    (entry_Source: "Source option")
    (entry_Summary: "Text option")
    (entry_Title: string)
    (entry_Updated: TimeStr)
    (entry_Extension: "Extension list")
and Source = Source
    (source_Feed: "Feed option")

section \<open>The issue aggregator (validation.go, ValidationError)\<close>

text \<open>
  A value of Go's \<open>error\<close> interface as the validators see it: nil, a
  \<open>*ValidationError\<close>, or an error of any other concrete type (carried by its
  message). A run of a validator either returns or panics.
\<close>

record ValidationError =
  issues :: "string list"

datatype go_error = NoError | ValidationErr ValidationError | ForeignErr string

datatype panic = NilPointerDereference | TypeAssertionFailed

text \<open>
  The three syntax checkers of the Go standard library (\<open>url.Parse\<close>,
  \<open>mail.ParseAddress\<close>, \<open>time.Parse\<close> with the RFC 3339 layout) are parameters of
  the model. Each maps the checked string to \<open>None\<close> when the returned error is nil
  and to \<open>Some m\<close> when it is an error whose \<open>Error()\<close> text is \<open>m\<close>.
\<close>

record checkers =
  url_Parse :: "string \<Rightarrow> string option"
  mail_ParseAddress :: "string \<Rightarrow> string option"
  time_Parse :: "string \<Rightarrow> string option"

definition and_then :: "panic + 'a \<Rightarrow> ('a \<Rightarrow> panic + 'b) \<Rightarrow> panic + 'b" where
  "and_then m f = (case m of Inl p \<Rightarrow> Inl p | Inr x \<Rightarrow> f x)"

definition new_ValidationError :: ValidationError where
  "new_ValidationError = \<lparr>issues = []\<rparr>"

fun Error_loop :: "string \<Rightarrow> string list \<Rightarrow> string" where
  "Error_loop result [] = result"
| "Error_loop result (issue # rest) =
     Error_loop (result @ ''- '' @ issue @ [CHR 0x0A]) rest"

definition Error :: "ValidationError \<Rightarrow> string" where
  "Error err = Error_loop (''An ATOM validation error occured:'' @ [CHR 0x0A]) (issues err)"

definition Merge :: "ValidationError \<Rightarrow> go_error \<Rightarrow> panic + ValidationError" where
  "Merge err other =
     (case other of
        NoError \<Rightarrow> Inr err
      | ValidationErr v \<Rightarrow> Inr (err\<lparr>issues := issues err @ issues v\<rparr>)
      | ForeignErr m \<Rightarrow> Inl TypeAssertionFailed)"

definition Add :: "ValidationError \<Rightarrow> string \<Rightarrow> ValidationError" where
  "Add err issue = err\<lparr>issues := issues err @ [issue]\<rparr>"

text \<open>\<open>AddErr\<close> receives the text \<open>issue.Error()\<close> of the non-nil error it is given.\<close>

definition AddErr :: "ValidationError \<Rightarrow> string \<Rightarrow> ValidationError" where
  "AddErr err issue_Error = err\<lparr>issues := issues err @ [issue_Error]\<rparr>"

definition NilIfEmpty :: "ValidationError \<Rightarrow> go_error" where
  "NilIfEmpty err = (if length (issues err) = 0 then NoError else ValidationErr err)"

section \<open>Leaf validators\<close>

definition validateCommon :: "checkers \<Rightarrow> Common \<Rightarrow> go_error" where
  "validateCommon ck common =
     (let errs = new_ValidationError;
          errs = (if Base common \<noteq> ''''
                  then (case url_Parse ck (Base common) of
                          Some e \<Rightarrow> AddErr errs e | None \<Rightarrow> errs)
                  else errs)
      in NilIfEmpty errs)"

definition Text_validate :: "checkers \<Rightarrow> Text \<Rightarrow> bool \<Rightarrow> panic + go_error" where
  "Text_validate ck text isContent =
     and_then (Merge new_ValidationError (validateCommon ck (text_Common text))) (\<lambda>errs.
     let errs = (if \<not> isContent
                 then (if text_Type text \<noteq> ''''
                       then (if text_Type text \<noteq> ''text'' \<and> text_Type text \<noteq> ''html''
                                \<and> text_Type text \<noteq> ''xhtml''
                             then Add errs ''Text.Type must be either: text, html or xhtml.''
                             else errs)
                       else errs)
                 else errs);
         errs = (if text_Src text \<noteq> ''''
                 then (case url_Parse ck (text_Src text) of
                         Some e \<Rightarrow> AddErr errs e | None \<Rightarrow> errs)
                 else errs)
     in Inr (NilIfEmpty errs))"

definition Person_validate :: "checkers \<Rightarrow> Person \<Rightarrow> panic + go_error" where
  "Person_validate ck person =
     and_then (Merge new_ValidationError (validateCommon ck (person_Common person))) (\<lambda>errs.
     let errs = (if person_URI person \<noteq> ''''
                 then (case url_Parse ck (person_URI person) of
                         Some e \<Rightarrow> AddErr errs e | None \<Rightarrow> errs)
                 else errs);
         errs = (if person_Email person \<noteq> ''''
                 then (case mail_ParseAddress ck (person_Email person) of
                         Some e \<Rightarrow> AddErr errs e | None \<Rightarrow> errs)
                 else errs)
     in Inr (NilIfEmpty errs))"

definition TimeStr_validate :: "checkers \<Rightarrow> TimeStr \<Rightarrow> go_error" where
  "TimeStr_validate ck timeStr =
     (let errs = new_ValidationError;
          errs = (case time_Parse ck timeStr of
                    Some e \<Rightarrow> AddErr errs e | None \<Rightarrow> errs)
      in NilIfEmpty errs)"

definition Category_validate :: "checkers \<Rightarrow> Category \<Rightarrow> panic + go_error" where
  "Category_validate ck category =
     and_then (Merge new_ValidationError (validateCommon ck (category_Common category))) (\<lambda>errs.
     let errs = (if category_Scheme category \<noteq> ''''
                 then (case url_Parse ck (category_Scheme category) of
                         Some e \<Rightarrow> AddErr errs e | None \<Rightarrow> errs)
                 else errs)
     in Inr (NilIfEmpty errs))"

definition Generator_validate :: "checkers \<Rightarrow> Generator \<Rightarrow> panic + go_error" where
  "Generator_validate ck generator =
     and_then (Merge new_ValidationError (validateCommon ck (generator_Common generator))) (\<lambda>errs.
     let errs = (if generator_URI generator \<noteq> ''''
                 then (case url_Parse ck (generator_URI generator) of
                         Some e \<Rightarrow> AddErr errs e | None \<Rightarrow> errs)
                 else errs)
     in Inr (NilIfEmpty errs))"

definition Link_validate :: "checkers \<Rightarrow> Link \<Rightarrow> panic + go_error" where
  "Link_validate ck link =
     and_then (Merge new_ValidationError (validateCommon ck (link_Common link))) (\<lambda>errs.
     let errs = (case url_Parse ck (link_Href link) of
                   Some e \<Rightarrow> AddErr errs e | None \<Rightarrow> errs)
     in Inr (NilIfEmpty errs))"

section \<open>Loops of the entry and feed validators\<close>

text \<open>
  \<open>for _, x := range xs { errs.Merge(x.validate()) }\<close>, given the results of the
  calls in slice order: the first panic, of a call or of \<open>Merge\<close>, ends the run.
\<close>

fun Merge_each :: "ValidationError \<Rightarrow> (panic + go_error) list \<Rightarrow> panic + ValidationError" where
  "Merge_each errs [] = Inr errs"
| "Merge_each errs (r # rs) =
     and_then r (\<lambda>other. and_then (Merge errs other) (\<lambda>errs. Merge_each errs rs))"

text \<open>
  The link loop, written twice in the source (lines 192-203 and 280-291) with the same
  body; \<open>foundAlternate\<close> is the loop's flag.
\<close>

fun Link_loop :: "checkers \<Rightarrow> ValidationError \<Rightarrow> bool \<Rightarrow> Link list \<Rightarrow> panic + ValidationError" where
  "Link_loop ck errs foundAlternate [] = Inr errs"
| "Link_loop ck errs foundAlternate (link # rest) =
     and_then (Link_validate ck link) (\<lambda>other.
     and_then (Merge errs other) (\<lambda>errs.
       if link_Rel link = ''alternate''
       then (if foundAlternate
             then Link_loop ck
                    (Add errs (''Only one Feed.Link with rel='' @ [CHR 0x22] @ ''alternate''
                               @ [CHR 0x22] @ '' can exist.''))
                    foundAlternate rest
             else Link_loop ck errs True rest)
       else Link_loop ck errs foundAlternate rest))"

text \<open>The author loop of lines 250-255: the first entry without authors adds the issue and breaks.\<close>

fun Author_loop :: "ValidationError \<Rightarrow> Entry list \<Rightarrow> ValidationError" where
  "Author_loop errs [] = errs"
| "Author_loop errs (entry # rest) =
     (if length (entry_Author entry) = 0
      then Add errs ''Author must be present in Feed or in every Entry.''
      else Author_loop errs rest)"

section \<open>Entry.Validate and Feed.Validate\<close>

function Entry_Validate :: "checkers \<Rightarrow> Entry \<Rightarrow> panic + go_error"
and Feed_Validate :: "checkers \<Rightarrow> Feed \<Rightarrow> panic + go_error" where
  "Entry_Validate ck entry =
     and_then (Merge new_ValidationError (validateCommon ck (entry_Common entry))) (\<lambda>errs.
     and_then (Merge_each errs (map (Person_validate ck) (entry_Author entry))) (\<lambda>errs.
     and_then (Merge_each errs (map (Category_validate ck) (entry_Category entry))) (\<lambda>errs.
     and_then (case entry_Content entry of
                 Some content \<Rightarrow> and_then (Text_validate ck content True) (Merge errs)
               | None \<Rightarrow> Inr errs) (\<lambda>errs.
     and_then (Merge_each errs (map (Person_validate ck) (entry_Contributor entry))) (\<lambda>errs.
     let errs = (if entry_ID entry = '''' then Add errs ''Entry.ID can't be empty.'' else errs) in
     and_then (Link_loop ck errs False (entry_Link entry)) (\<lambda>errs.
     and_then (if entry_Published entry \<noteq> ''''
               then Merge errs (TimeStr_validate ck (entry_Published entry))
               else Inr errs) (\<lambda>errs.
     and_then (case entry_Source entry of
                 Some source \<Rightarrow>
                   (case source_Feed source of
                      None \<Rightarrow> Inl NilPointerDereference
                    | Some feed \<Rightarrow>
                        if length (feed_Entry feed) > 0
                        then Inr (Add errs ''Entry.Source can't contain any entries.'')
                        else Inr errs)
               | None \<Rightarrow> Inr errs) (\<lambda>errs.
     and_then (case entry_Summary entry of
                 Some summary \<Rightarrow> and_then (Text_validate ck summary False) (Merge errs)
               | None \<Rightarrow> Inr errs) (\<lambda>errs.
     let errs = (if entry_Title entry = '''' then Add errs ''Entry.Title can't be empty.'' else errs) in
     and_then (if entry_Updated entry \<noteq> ''''
               then Merge errs (TimeStr_validate ck (entry_Updated entry))
               else Inr (Add errs ''Entry.Updated can't be empty.'')) (\<lambda>errs.
     and_then (case entry_Source entry of
                 Some source \<Rightarrow>
                   (case source_Feed source of
                      None \<Rightarrow> Inl NilPointerDereference
                    | Some feed \<Rightarrow> and_then (Feed_Validate ck feed) (Merge errs))
               | None \<Rightarrow> Inr errs) (\<lambda>errs.
     Inr (NilIfEmpty errs))))))))))))"
| "Feed_Validate ck feed =
     and_then (Merge new_ValidationError (validateCommon ck (feed_Common feed))) (\<lambda>errs.
     and_then (Merge_each errs (map (Person_validate ck) (feed_Author feed))) (\<lambda>errs.
     let errs = (if length (feed_Author feed) = 0
                 then Author_loop errs (feed_Entry feed) else errs) in
     and_then (Merge_each errs (map (Category_validate ck) (feed_Category feed))) (\<lambda>errs.
     and_then (Merge_each errs (map (Person_validate ck) (feed_Contributor feed))) (\<lambda>errs.
     and_then (case feed_Generator feed of
                 Some generator \<Rightarrow> and_then (Generator_validate ck generator) (Merge errs)
               | None \<Rightarrow> Inr errs) (\<lambda>errs.
     let errs = (if feed_Icon feed \<noteq> ''''
                 then (case url_Parse ck (feed_Icon feed) of
                         Some e \<Rightarrow> AddErr errs e | None \<Rightarrow> errs)
                 else errs);
         errs = (if feed_ID feed = '''' then Add errs ''Feed.ID can't be empty.'' else errs) in
     and_then (Link_loop ck errs False (feed_Link feed)) (\<lambda>errs.
     let errs = (if feed_Logo feed \<noteq> ''''
                 then (case url_Parse ck (feed_Logo feed) of
                         Some e \<Rightarrow> AddErr errs e | None \<Rightarrow> errs)
                 else errs);
         errs = (if feed_Title feed = '''' then Add errs ''Feed.Title can't be empty.'' else errs);
         errs = (if feed_Updated feed = '''' then Add errs ''Feed.Updated can't be empty.'' else errs) in
     and_then (if feed_Updated feed \<noteq> ''''
               then Merge errs (TimeStr_validate ck (feed_Updated feed))
               else Inr (Add errs ''Feed.Updated can't be empty.'')) (\<lambda>errs.
     and_then (Merge_each errs (map (Entry_Validate ck) (feed_Entry feed))) (\<lambda>errs.
     Inr (NilIfEmpty errs)))))))))"
  by pat_completeness auto

termination
proof (relation "measure (\<lambda>x. case x of Inl (ck, entry) \<Rightarrow> size entry | Inr (ck, feed) \<Rightarrow> size feed)")
  show "wf (measure (\<lambda>x. case x of Inl (ck, entry) \<Rightarrow> size entry | Inr (ck, feed) \<Rightarrow> size feed))"
    by simp
next
  fix ck :: checkers and entry :: Entry and source :: Source and feed :: Feed
  assume "entry_Source entry = Some source" and "source_Feed source = Some feed"
  then have "size feed < size entry"
    by (cases entry; cases source) simp
  then show "(Inr (ck, feed), Inl (ck, entry))
      \<in> measure (\<lambda>x. case x of Inl (ck, entry) \<Rightarrow> size entry | Inr (ck, feed) \<Rightarrow> size feed)"
    by simp
next
  fix ck :: checkers and feed :: Feed and entry :: Entry
  assume "entry \<in> set (feed_Entry feed)"
  then have "size entry < size feed"
    by (cases feed) (auto simp: less_Suc_eq_le dest: size_list_estimation')
  then show "(Inl (ck, entry), Inr (ck, feed))
      \<in> measure (\<lambda>x. case x of Inl (ck, entry) \<Rightarrow> size entry | Inr (ck, feed) \<Rightarrow> size feed)"
    by simp
qed

declare Entry_Validate.simps [simp del] Feed_Validate.simps [simp del]

section \<open>Notions used to state the properties\<close>

text \<open>The issues carried by an \<open>error\<close> value, and by the outcome of a validator run.\<close>

fun issues_of :: "go_error \<Rightarrow> string list" where
  "issues_of NoError = []"
| "issues_of (ValidationErr v) = issues v"
| "issues_of (ForeignErr m) = []"

fun report :: "panic + go_error \<Rightarrow> string list" where
  "report (Inr e) = issues_of e"
| "report (Inl p) = []"

text \<open>A run returns when it does not panic; what it returns is nil or a \<open>*ValidationError\<close>.\<close>

fun returns :: "panic + go_error \<Rightarrow> bool" where
  "returns (Inr NoError) = True"
| "returns (Inr (ValidationErr v)) = True"
| "returns (Inr (ForeignErr m)) = False"
| "returns (Inl p) = False"

text \<open>
  No \<open>Source\<close> in the tree has a nil \<open>Feed\<close> pointer: the shape the spec's data
  model gives a source (it embeds one feed).
\<close>

fun Entry_sources_set :: "Entry \<Rightarrow> bool"
and Feed_sources_set :: "Feed \<Rightarrow> bool" where
  "Entry_sources_set (Entry c au ca co cb i l p r src su t u x) =
     (case src of
        None \<Rightarrow> True
      | Some (Source None) \<Rightarrow> False
      | Some (Source (Some feed)) \<Rightarrow> Feed_sources_set feed)"
| "Feed_sources_set (Feed c au ca cb g ic i l lo r s t u entries x) =
     list_all Entry_sources_set entries"

text \<open>
  The checkers are outside the repository, so a property that counts one of the
  validators' own messages is stated for checkers that never return an error with
  that very text.
\<close>

definition never_emits :: "checkers \<Rightarrow> string \<Rightarrow> bool" where
  "never_emits ck m \<longleftrightarrow>
     (\<forall>s. url_Parse ck s \<noteq> Some m \<and> mail_ParseAddress ck s \<noteq> Some m
          \<and> time_Parse ck s \<noteq> Some m)"

text \<open>The aggregator with further issues appended, and the issues a loop has collected.\<close>

definition extend :: "ValidationError \<Rightarrow> string list \<Rightarrow> ValidationError" where
  "extend errs xs = errs\<lparr>issues := issues errs @ xs\<rparr>"

fun collected :: "panic + ValidationError \<Rightarrow> string list" where
  "collected (Inr v) = issues v"
| "collected (Inl p) = []"

text \<open>
  The issues \<open>Entry.Validate\<close> collects up to and including the \<open>Published\<close> check
  (lines 170-207), and those of its \<open>Summary\<close>, \<open>Title\<close> and \<open>Updated\<close> checks
  (lines 215-227), each in the order of the code.
\<close>

definition Entry_issues_to_Published :: "checkers \<Rightarrow> Entry \<Rightarrow> string list" where
  "Entry_issues_to_Published ck e =
     issues_of (validateCommon ck (entry_Common e))
     @ concat (map (\<lambda>p. report (Person_validate ck p)) (entry_Author e))
     @ concat (map (\<lambda>c. report (Category_validate ck c)) (entry_Category e))
     @ (case entry_Content e of None \<Rightarrow> [] | Some t \<Rightarrow> report (Text_validate ck t True))
     @ concat (map (\<lambda>p. report (Person_validate ck p)) (entry_Contributor e))
     @ (if entry_ID e = [] then [''Entry.ID can't be empty.''] else [])
     @ collected (Link_loop ck new_ValidationError False (entry_Link e))
     @ (if entry_Published e \<noteq> [] then issues_of (TimeStr_validate ck (entry_Published e))
        else [])"

definition Entry_issues_Summary_to_Updated :: "checkers \<Rightarrow> Entry \<Rightarrow> string list" where
  "Entry_issues_Summary_to_Updated ck e =
     (case entry_Summary e of None \<Rightarrow> [] | Some t \<Rightarrow> report (Text_validate ck t False))
     @ (if entry_Title e = [] then [''Entry.Title can't be empty.''] else [])
     @ (if entry_Updated e \<noteq> [] then issues_of (TimeStr_validate ck (entry_Updated e))
        else [''Entry.Updated can't be empty.''])"

text \<open>The issues \<open>Feed.Validate\<close> collects before it validates the entries (lines 242-311).\<close>

definition Feed_issues_own :: "checkers \<Rightarrow> Feed \<Rightarrow> string list" where
  "Feed_issues_own ck f =
     issues_of (validateCommon ck (feed_Common f))
     @ concat (map (\<lambda>p. report (Person_validate ck p)) (feed_Author f))
     @ (if feed_Author f = []
        then (if list_ex (\<lambda>e. entry_Author e = []) (feed_Entry f)
              then [''Author must be present in Feed or in every Entry.''] else [])
        else [])
     @ concat (map (\<lambda>c. report (Category_validate ck c)) (feed_Category f))
     @ concat (map (\<lambda>p. report (Person_validate ck p)) (feed_Contributor f))
     @ (case feed_Generator f of None \<Rightarrow> [] | Some g \<Rightarrow> report (Generator_validate ck g))
     @ (if feed_Icon f \<noteq> []
        then (case url_Parse ck (feed_Icon f) of None \<Rightarrow> [] | Some e \<Rightarrow> [e]) else [])
     @ (if feed_ID f = [] then [''Feed.ID can't be empty.''] else [])
     @ collected (Link_loop ck new_ValidationError False (feed_Link f))
     @ (if feed_Logo f \<noteq> []
        then (case url_Parse ck (feed_Logo f) of None \<Rightarrow> [] | Some e \<Rightarrow> [e]) else [])
     @ (if feed_Title f = [] then [''Feed.Title can't be empty.''] else [])
     @ (if feed_Updated f = [] then [''Feed.Updated can't be empty.''] else [])
     @ (if feed_Updated f \<noteq> [] then issues_of (TimeStr_validate ck (feed_Updated f))
        else [''Feed.Updated can't be empty.''])"

section \<open>Concrete inputs\<close>

text \<open>
  Checkers that accept every string, and checkers whose time parser rejects exactly
  the empty string, with the text Go's \<open>time.Parse\<close> gives for it.
\<close>

definition accept_all :: checkers where
  "accept_all = \<lparr>url_Parse = (\<lambda>s. None), mail_ParseAddress = (\<lambda>s. None),
                  time_Parse = (\<lambda>s. None)\<rparr>"

definition reject_empty_time :: checkers where
  "reject_empty_time =
     \<lparr>url_Parse = (\<lambda>s. None), mail_ParseAddress = (\<lambda>s. None),
      time_Parse = (\<lambda>s. if s = [] then Some ''parsing time: cannot parse'' else None)\<rparr>"

definition zero_Common :: Common where
  "zero_Common = \<lparr>Base = [], Lang = []\<rparr>"

definition alternate_Link :: Link where
  "alternate_Link = \<lparr>link_Common = zero_Common, link_Href = ''http://example.org/'',
     link_Rel = ''alternate'', link_Type = [], link_HrefLang = [], link_Title = [],
     link_Length = []\<rparr>"

definition john :: Person where
  "john = \<lparr>person_Common = zero_Common, person_Name = ''John Doe'', person_URI = [],
     person_Email = [], person_Extension = []\<rparr>"

definition invalid_Text :: Text where
  "invalid_Text = \<lparr>text_Common = zero_Common, text_Type = ''invalid'', text_Src = [],
     text_Body = ''body''\<rparr>"

text \<open>Feeds and entries with the fields the examples vary; every other field is empty.\<close>

definition simple_Feed ::
  "Person list \<Rightarrow> string \<Rightarrow> Link list \<Rightarrow> string \<Rightarrow> TimeStr \<Rightarrow> Entry list \<Rightarrow> Feed" where
  "simple_Feed authors ident links title updated entries =
     Feed zero_Common authors [] [] None [] ident links [] [] [] title updated entries []"

definition simple_Entry ::
  "Person list \<Rightarrow> Text option \<Rightarrow> string \<Rightarrow> Source option \<Rightarrow> Text option \<Rightarrow> string
     \<Rightarrow> TimeStr \<Rightarrow> Entry" where
  "simple_Entry authors content ident source summary title updated =
     Entry zero_Common authors [] content [] ident [] [] [] source summary title updated []"

definition plain_Entry :: Entry where
  "plain_Entry = simple_Entry [john] None ''urn:entry'' None None ''An entry''
     ''2006-01-02T15:04:05Z''"

definition anonymous_Entry :: Entry where
  "anonymous_Entry = simple_Entry [] None ''urn:entry'' None None ''An entry''
     ''2006-01-02T15:04:05Z''"

text \<open>A feed with three alternate links and nothing else wrong.\<close>

definition three_alternates_Feed :: Feed where
  "three_alternates_Feed = simple_Feed [john] ''urn:feed''
     [alternate_Link, alternate_Link, alternate_Link] ''A feed'' ''2006-01-02T15:04:05Z'' []"

text \<open>
  A feed without authors whose only entry has no authors either and embeds, as its
  source, a feed that again has no authors and one entry without authors.
\<close>

definition anonymous_inner_Feed :: Feed where
  "anonymous_inner_Feed = simple_Feed [] ''urn:inner'' [] ''Inner feed''
     ''2006-01-02T15:04:05Z'' [anonymous_Entry]"

definition anonymous_outer_Feed :: Feed where
  "anonymous_outer_Feed = simple_Feed [] ''urn:outer'' [] ''Outer feed''
     ''2006-01-02T15:04:05Z''
     [simple_Entry [] None ''urn:entry'' (Some (Source (Some anonymous_inner_Feed))) None
        ''An entry'' ''2006-01-02T15:04:05Z'']"

text \<open>
  An entry without title and updated whose source feed has no title and holds one
  entry.
\<close>

definition untitled_source_Feed :: Feed where
  "untitled_source_Feed = simple_Feed [john] ''urn:source'' [] [] ''2006-01-02T15:04:05Z''
     [plain_Entry]"

definition untitled_sourced_Entry :: Entry where
  "untitled_sourced_Entry = simple_Entry [john] None ''urn:entry''
     (Some (Source (Some untitled_source_Feed))) None [] []"

text \<open>An entry whose source has a nil feed pointer.\<close>

definition nil_source_Entry :: Entry where
  "nil_source_Entry = simple_Entry [john] None ''urn:entry'' (Some (Source None)) None
     ''An entry'' ''2006-01-02T15:04:05Z''"

text \<open>A feed and an entry with empty id, title and updated.\<close>

definition blank_Feed :: Feed where
  "blank_Feed = simple_Feed [john] [] [] [] [] []"

definition blank_Entry :: Entry where
  "blank_Entry = simple_Entry [john] None [] None None [] []"

text \<open>The same text as an entry's summary and as an entry's content.\<close>

definition invalid_summary_Entry :: Entry where
  "invalid_summary_Entry = simple_Entry [john] None ''urn:entry'' None (Some invalid_Text)
     ''An entry'' ''2006-01-02T15:04:05Z''"

definition invalid_content_Entry :: Entry where
  "invalid_content_Entry = simple_Entry [john] (Some invalid_Text) ''urn:entry'' None None
     ''An entry'' ''2006-01-02T15:04:05Z''"

text \<open>A category with no term.\<close>

definition termless_Category :: Category where
  "termless_Category = \<lparr>category_Common = zero_Common, category_Term = [],
     category_Scheme = [], category_Label = ''Label''\<rparr>"

text \<open>Checkers whose time parser accepts one timestamp only.\<close>

definition reject_other_times :: checkers where
  "reject_other_times =
     \<lparr>url_Parse = (\<lambda>s. None), mail_ParseAddress = (\<lambda>s. None),
      time_Parse = (\<lambda>s. if s = ''2006-01-02T15:04:05Z'' then None
                          else Some ''parsing time: cannot parse'')\<rparr>"

text \<open>A feed whose updated is not a timestamp, and a feed without authors with two entries
  without authors.\<close>

definition stale_Feed :: Feed where
  "stale_Feed = simple_Feed [john] ''urn:feed'' [] ''A feed'' ''yesterday'' []"

definition two_anonymous_Feed :: Feed where
  "two_anonymous_Feed = simple_Feed [] ''urn:feed'' [] ''A feed'' ''2006-01-02T15:04:05Z''
     [anonymous_Entry, anonymous_Entry]"

text \<open>
  An entry with three alternate links, an entry with two alternate links whose source is
  the feed with three, and a feed with two alternate links holding both entries.
\<close>

definition three_alternates_Entry :: Entry where
  "three_alternates_Entry = Entry zero_Common [john] [] None [] ''urn:entry''
     [alternate_Link, alternate_Link, alternate_Link] [] [] None None ''An entry''
     ''2006-01-02T15:04:05Z'' []"

definition sourced_alternates_Entry :: Entry where
  "sourced_alternates_Entry = Entry zero_Common [john] [] None [] ''urn:entry''
     [alternate_Link, alternate_Link] [] []
     (Some (Source (Some three_alternates_Feed))) None ''An entry''
     ''2006-01-02T15:04:05Z'' []"

definition alternates_in_entries_Feed :: Feed where
  "alternates_in_entries_Feed = simple_Feed [john] ''urn:feed'' [alternate_Link, alternate_Link]
     ''A feed'' ''2006-01-02T15:04:05Z'' [three_alternates_Entry, sourced_alternates_Entry]"

text \<open>
  A feed without authors whose entries all have one, a feed with an author whose entries
  have none, and an entry whose updated is not a timestamp.
\<close>

definition authored_entries_Feed :: Feed where
  "authored_entries_Feed = simple_Feed [] ''urn:feed'' [] ''A feed'' ''2006-01-02T15:04:05Z''
     [plain_Entry, plain_Entry]"

definition authored_Feed :: Feed where
  "authored_Feed = simple_Feed [john] ''urn:feed'' [] ''A feed'' ''2006-01-02T15:04:05Z''
     [anonymous_Entry, anonymous_Entry]"

definition stale_Entry :: Entry where
  "stale_Entry = simple_Entry [john] None ''urn:entry'' None None ''An entry'' ''yesterday''"

text \<open>The issue of the link loop, with its two double quotes.\<close>

abbreviation alternate_issue :: string where
  "alternate_issue \<equiv> ''Only one Feed.Link with rel='' @ [CHR 0x22] @ ''alternate'' @ [CHR 0x22]
     @ '' can exist.''"

section \<open>The aggregator's operations\<close>

text \<open>
  The simplifier's conversion of list comprehensions into set comprehensions fails on
  the \<open>case\<close> expressions of the issue lists below and is switched off.
\<close>

declare TrueI [simproc del: list_to_set_comprehension]


lemma and_then_Inr [simp]: "and_then (Inr x) f = f x"
  by (simp add: and_then_def)

lemma and_then_Inl [simp]: "and_then (Inl p) f = Inl p"
  by (simp add: and_then_def)

lemma and_then_assoc: "and_then (and_then m f) g = and_then m (\<lambda>x. and_then (f x) g)"
  by (cases m) simp_all

lemma issues_new [simp]: "issues new_ValidationError = []"
  by (simp add: new_ValidationError_def)

lemma issues_extend [simp]: "issues (extend errs xs) = issues errs @ xs"
  by (simp add: extend_def)

lemma extend_extend [simp]: "extend (extend errs xs) ys = extend errs (xs @ ys)"
  by (simp add: extend_def)

lemma extend_Nil [simp]: "extend errs [] = errs"
  by (simp add: extend_def)

lemma Add_extend: "Add errs m = extend errs [m]"
  by (simp add: Add_def extend_def)

lemma AddErr_extend: "AddErr errs m = extend errs [m]"
  by (simp add: AddErr_def extend_def)

lemma issues_of_NilIfEmpty [simp]: "issues_of (NilIfEmpty v) = issues v"
  by (simp add: NilIfEmpty_def)

lemma returns_NilIfEmpty [simp]: "returns (Inr (NilIfEmpty v))"
  by (simp add: NilIfEmpty_def)

lemma Merge_returns: "returns (Inr e) \<Longrightarrow> Merge errs e = Inr (extend errs (issues_of e))"
  by (cases e) (simp_all add: Merge_def extend_def)

lemma and_then_Merge: "returns r \<Longrightarrow> and_then r (Merge errs) = Inr (extend errs (report r))"
  by (cases r) (simp_all add: Merge_returns)

lemma and_then_Merge_then:
  "returns r \<Longrightarrow>
     and_then r (\<lambda>other. and_then (Merge errs other) f) = f (extend errs (report r))"
  by (cases r) (simp_all add: Merge_returns)

text \<open>How one statement of a validator changes the aggregator.\<close>

lemma if_extend1: "(if c then extend errs xs else errs) = extend errs (if c then xs else [])"
  by simp

lemma if_extend2: "(if c then errs else extend errs xs) = extend errs (if c then [] else xs)"
  by simp

lemma if_extend3:
  "(if c then extend errs xs else extend errs ys) = extend errs (if c then xs else ys)"
  by simp

lemma if_Inr: "(if c then Inr a else (Inr b :: panic + ValidationError)) = Inr (if c then a else b)"
  by simp

lemma case_extend:
  "(case opt of None \<Rightarrow> errs | Some x \<Rightarrow> extend errs (g x))
     = extend errs (case opt of None \<Rightarrow> [] | Some x \<Rightarrow> g x)"
  by (cases opt) simp_all

lemma case_Inr:
  "(case opt of None \<Rightarrow> (Inr a :: panic + ValidationError) | Some x \<Rightarrow> Inr (g x))
     = Inr (case opt of None \<Rightarrow> a | Some x \<Rightarrow> g x)"
  by (cases opt) simp_all

lemma case_AddErr:
  "(case opt of None \<Rightarrow> errs | Some x \<Rightarrow> AddErr errs x)
     = extend errs (case opt of None \<Rightarrow> [] | Some e \<Rightarrow> [e])"
  by (cases opt) (simp_all add: AddErr_extend)

lemmas flow = Let_def Add_extend AddErr_extend case_AddErr if_extend1 if_extend2 if_extend3
  if_Inr case_extend case_Inr

section \<open>The leaf validators as lists of issues\<close>

lemma validateCommon_eq:
  "validateCommon ck c = NilIfEmpty (extend new_ValidationError
     (if Base c \<noteq> [] then (case url_Parse ck (Base c) of None \<Rightarrow> [] | Some e \<Rightarrow> [e])
      else []))"
  by (simp add: validateCommon_def flow)

lemma returns_validateCommon [simp]: "returns (Inr (validateCommon ck c))"
  by (simp add: validateCommon_eq)

lemma TimeStr_validate_eq:
  "TimeStr_validate ck t = NilIfEmpty (extend new_ValidationError
     (case time_Parse ck t of None \<Rightarrow> [] | Some e \<Rightarrow> [e]))"
  by (simp add: TimeStr_validate_def flow)

lemma returns_TimeStr_validate [simp]: "returns (Inr (TimeStr_validate ck t))"
  by (simp add: TimeStr_validate_eq)

lemma Text_validate_eq:
  "Text_validate ck t b = Inr (NilIfEmpty (extend new_ValidationError
     (issues_of (validateCommon ck (text_Common t))
      @ (if \<not> b \<and> text_Type t \<noteq> [] \<and> text_Type t \<noteq> ''text'' \<and> text_Type t \<noteq> ''html''
            \<and> text_Type t \<noteq> ''xhtml''
         then [''Text.Type must be either: text, html or xhtml.''] else [])
      @ (if text_Src t \<noteq> []
         then (case url_Parse ck (text_Src t) of None \<Rightarrow> [] | Some e \<Rightarrow> [e]) else []))))"
  by (simp add: Text_validate_def Merge_returns flow)

lemma Person_validate_eq:
  "Person_validate ck p = Inr (NilIfEmpty (extend new_ValidationError
     (issues_of (validateCommon ck (person_Common p))
      @ (if person_URI p \<noteq> []
         then (case url_Parse ck (person_URI p) of None \<Rightarrow> [] | Some e \<Rightarrow> [e]) else [])
      @ (if person_Email p \<noteq> []
         then (case mail_ParseAddress ck (person_Email p) of None \<Rightarrow> [] | Some e \<Rightarrow> [e])
         else []))))"
  by (simp add: Person_validate_def Merge_returns flow)

lemma Category_validate_eq:
  "Category_validate ck c = Inr (NilIfEmpty (extend new_ValidationError
     (issues_of (validateCommon ck (category_Common c))
      @ (if category_Scheme c \<noteq> []
         then (case url_Parse ck (category_Scheme c) of None \<Rightarrow> [] | Some e \<Rightarrow> [e])
         else []))))"
  by (simp add: Category_validate_def Merge_returns flow)

lemma Generator_validate_eq:
  "Generator_validate ck g = Inr (NilIfEmpty (extend new_ValidationError
     (issues_of (validateCommon ck (generator_Common g))
      @ (if generator_URI g \<noteq> []
         then (case url_Parse ck (generator_URI g) of None \<Rightarrow> [] | Some e \<Rightarrow> [e])
         else []))))"
  by (simp add: Generator_validate_def Merge_returns flow)

lemma Link_validate_eq:
  "Link_validate ck l = Inr (NilIfEmpty (extend new_ValidationError
     (issues_of (validateCommon ck (link_Common l))
      @ (case url_Parse ck (link_Href l) of None \<Rightarrow> [] | Some e \<Rightarrow> [e]))))"
  by (simp add: Link_validate_def Merge_returns flow)

lemma returns_leaf [simp]:
  "returns (Text_validate ck t b)" "returns (Person_validate ck p)"
  "returns (Category_validate ck c)" "returns (Generator_validate ck g)"
  "returns (Link_validate ck l)"
  by (simp_all add: Text_validate_eq Person_validate_eq Category_validate_eq
      Generator_validate_eq Link_validate_eq)

section \<open>The loops as lists of issues\<close>

lemma Merge_each_returns:
  "\<forall>r \<in> set rs. returns r \<Longrightarrow> Merge_each errs rs = Inr (extend errs (concat (map report rs)))"
proof (induction rs arbitrary: errs)
  case Nil
  show ?case by simp
next
  case (Cons r rs)
  then show ?case by (cases r) (simp_all add: Merge_returns)
qed

lemma Merge_each_outcome:
  assumes "\<forall>r \<in> set rs. returns r \<or> r = Inl NilPointerDereference"
  shows "Merge_each errs rs =
           (if \<forall>r \<in> set rs. returns r then Inr (extend errs (concat (map report rs)))
            else Inl NilPointerDereference)"
  using assms
proof (induction rs arbitrary: errs)
  case Nil
  show ?case by simp
next
  case (Cons r rs)
  from Cons.prems have r: "returns r \<or> r = Inl NilPointerDereference" by simp
  from Cons.prems have rs: "\<forall>r \<in> set rs. returns r \<or> r = Inl NilPointerDereference" by simp
  from r show ?case
  proof
    assume "returns r"
    then show ?thesis
      by (simp add: and_then_Merge_then Cons.IH [OF rs])
  next
    assume "r = Inl NilPointerDereference"
    then show ?thesis by simp
  qed
qed

lemma Link_loop_eq:
  "Link_loop ck errs b ls = Inr (extend errs (collected (Link_loop ck new_ValidationError b ls)))"
proof (induction ls arbitrary: errs b)
  case Nil
  show ?case by simp
next
  case (Cons l ls)
  have IH: "Link_loop ck (extend e xs) b' ls
        = Inr (extend e (xs @ collected (Link_loop ck new_ValidationError b' ls)))" for e xs b'
    by (subst Cons.IH) simp
  show ?case
    by (simp add: and_then_Merge_then Add_extend IH)
qed

lemma Author_loop_eq:
  "Author_loop errs es = extend errs
     (if list_ex (\<lambda>e. entry_Author e = []) es
      then [''Author must be present in Feed or in every Entry.''] else [])"
  by (induction es) (simp_all add: Add_extend)

lemma case_Text:
  "(case opt of None \<Rightarrow> Inr errs | Some t \<Rightarrow> and_then (Text_validate ck t b) (Merge errs))
     = Inr (extend errs (case opt of None \<Rightarrow> [] | Some t \<Rightarrow> report (Text_validate ck t b)))"
  by (cases opt) (simp_all add: and_then_Merge)

lemma case_Generator:
  "(case opt of None \<Rightarrow> Inr errs | Some g \<Rightarrow> and_then (Generator_validate ck g) (Merge errs))
     = Inr (extend errs (case opt of None \<Rightarrow> [] | Some g \<Rightarrow> report (Generator_validate ck g)))"
  by (cases opt) (simp_all add: and_then_Merge)

lemmas steps = Merge_returns and_then_Merge Merge_each_returns Link_loop_eq [of _ "extend _ _"]
  Author_loop_eq case_Text case_Generator and_then_assoc flow comp_def

section \<open>Entry.Validate and Feed.Validate as lists of issues\<close>

lemma Entry_sources_set_iff:
  "Entry_sources_set e =
     (case entry_Source e of None \<Rightarrow> True
      | Some s \<Rightarrow> (case source_Feed s of None \<Rightarrow> False | Some f \<Rightarrow> Feed_sources_set f))"
  by (cases e) (simp split: option.splits Source.splits)

lemma Feed_sources_set_iff: "Feed_sources_set f = list_all Entry_sources_set (feed_Entry f)"
  by (cases f) simp

text \<open>Induction along the calls of the two validators.\<close>

lemma Entry_Feed_induct:
  assumes E: "\<And>entry. (\<And>source feed. entry_Source entry = Some source \<Longrightarrow>
                 source_Feed source = Some feed \<Longrightarrow> Q feed) \<Longrightarrow> P entry"
      and F: "\<And>feed. (\<And>entry. entry \<in> set (feed_Entry feed) \<Longrightarrow> P entry) \<Longrightarrow> Q feed"
  shows "P e" and "Q f"
proof -
  have "(\<forall>e. size e < n \<longrightarrow> P e) \<and> (\<forall>f. size f < n \<longrightarrow> Q f)" for n
  proof (induction n)
    case 0
    show ?case by simp
  next
    case (Suc n)
    show ?case
    proof (intro conjI allI impI)
      fix e :: Entry assume "size e < Suc n"
      show "P e"
      proof (rule E)
        fix source feed
        assume "entry_Source e = Some source" "source_Feed source = Some feed"
        then have "size feed < size e" by (cases e; cases source) simp
        with \<open>size e < Suc n\<close> Suc show "Q feed" by simp
      qed
    next
      fix f :: Feed assume "size f < Suc n"
      show "Q f"
      proof (rule F)
        fix entry assume "entry \<in> set (feed_Entry f)"
        then have "size entry < size f"
          by (cases f) (auto simp: less_Suc_eq_le dest: size_list_estimation')
        with \<open>size f < Suc n\<close> Suc show "P entry" by simp
      qed
    qed
  qed
  then show "P e" and "Q f" by blast+
qed

lemma Feed_Validate_unfold:
  "Feed_Validate ck f =
     and_then (Merge_each (extend new_ValidationError (Feed_issues_own ck f))
                 (map (Entry_Validate ck) (feed_Entry f)))
       (\<lambda>errs. Inr (NilIfEmpty errs))"
  by (simp add: Feed_Validate.simps [of ck f] Feed_issues_own_def steps
      split del: if_split cong: if_cong option.case_cong)

lemma Entry_Validate_unfold:
  "Entry_Validate ck e =
     (case entry_Source e of
        None \<Rightarrow> Inr (NilIfEmpty (extend new_ValidationError
                  (Entry_issues_to_Published ck e @ Entry_issues_Summary_to_Updated ck e)))
      | Some s \<Rightarrow>
          (case source_Feed s of
             None \<Rightarrow> Inl NilPointerDereference
           | Some f \<Rightarrow>
               and_then (Feed_Validate ck f) (\<lambda>other.
               and_then (Merge (extend new_ValidationError
                   (Entry_issues_to_Published ck e
                    @ (if feed_Entry f \<noteq> [] then [''Entry.Source can't contain any entries.'']
                       else [])
                    @ Entry_issues_Summary_to_Updated ck e)) other)
                 (\<lambda>errs. Inr (NilIfEmpty errs)))))"
proof (cases "entry_Source e")
  case None
  then show ?thesis
    by (simp add: Entry_Validate.simps [of ck e] Entry_issues_to_Published_def
        Entry_issues_Summary_to_Updated_def steps
        split del: if_split cong: if_cong option.case_cong)
next
  case (Some s)
  show ?thesis
  proof (cases "source_Feed s")
    case None
    with Some show ?thesis
      by (simp add: Entry_Validate.simps [of ck e] steps
          split del: if_split cong: if_cong option.case_cong)
  next
    case (Some f)
    with \<open>entry_Source e = Some s\<close> show ?thesis
      by (simp add: Entry_Validate.simps [of ck e] Entry_issues_to_Published_def
          Entry_issues_Summary_to_Updated_def steps
          split del: if_split cong: if_cong option.case_cong)
  qed
qed

text \<open>A run returns exactly when no source has a nil feed; otherwise it panics on the nil pointer.\<close>

lemma Entry_Feed_outcome:
  "(Entry_sources_set e \<longrightarrow> returns (Entry_Validate ck e))
     \<and> (\<not> Entry_sources_set e \<longrightarrow> Entry_Validate ck e = Inl NilPointerDereference)"
  "(Feed_sources_set f \<longrightarrow> returns (Feed_Validate ck f))
     \<and> (\<not> Feed_sources_set f \<longrightarrow> Feed_Validate ck f = Inl NilPointerDereference)"
proof (induction e and f rule: Entry_Feed_induct)
  case (1 entry)
  show ?case
  proof (cases "entry_Source entry")
    case None
    then show ?thesis
      by (simp add: Entry_Validate_unfold [of ck entry] Entry_sources_set_iff [of entry])
  next
    case (Some s)
    show ?thesis
    proof (cases "source_Feed s")
      case None
      with Some show ?thesis
        by (simp add: Entry_Validate_unfold [of ck entry] Entry_sources_set_iff [of entry])
    next
      case (Some f)
      with \<open>entry_Source entry = Some s\<close> 1 have
        IH: "(Feed_sources_set f \<longrightarrow> returns (Feed_Validate ck f))
           \<and> (\<not> Feed_sources_set f \<longrightarrow> Feed_Validate ck f = Inl NilPointerDereference)"
        by blast
      show ?thesis
      proof (cases "Feed_sources_set f")
        case True
        with IH have "returns (Feed_Validate ck f)" by simp
        with True Some \<open>entry_Source entry = Some s\<close> show ?thesis
          by (simp add: Entry_Validate_unfold [of ck entry] Entry_sources_set_iff [of entry]
              and_then_Merge_then)
      next
        case False
        with IH have "Feed_Validate ck f = Inl NilPointerDereference" by simp
        with False Some \<open>entry_Source entry = Some s\<close> show ?thesis
          by (simp add: Entry_Validate_unfold [of ck entry] Entry_sources_set_iff [of entry])
      qed
    qed
  qed
next
  case (2 feed)
  then have *: "\<forall>r \<in> set (map (Entry_Validate ck) (feed_Entry feed)).
                  returns r \<or> r = Inl NilPointerDereference"
    by auto
  have "returns (Entry_Validate ck x) = Entry_sources_set x" if "x \<in> set (feed_Entry feed)" for x
    using 2 [OF that] by (cases "Entry_sources_set x") simp_all
  then have **: "(\<forall>r \<in> set (map (Entry_Validate ck) (feed_Entry feed)). returns r)
                     = Feed_sources_set feed"
    by (simp add: Feed_sources_set_iff [of feed] list_all_iff)
  show ?case
    using ** by (simp add: Feed_Validate_unfold [of ck feed] Merge_each_outcome [OF *])
qed

lemma Entry_Validate_returns: "Entry_sources_set e \<Longrightarrow> returns (Entry_Validate ck e)"
  by (simp add: Entry_Feed_outcome)

lemma Feed_Validate_returns: "Feed_sources_set f \<Longrightarrow> returns (Feed_Validate ck f)"
  by (simp add: Entry_Feed_outcome)

lemma Feed_report:
  assumes "Feed_sources_set f"
  shows "report (Feed_Validate ck f) =
           Feed_issues_own ck f @ concat (map (\<lambda>e. report (Entry_Validate ck e)) (feed_Entry f))"
proof -
  from assms have "\<forall>r \<in> set (map (Entry_Validate ck) (feed_Entry f)). returns r"
    by (auto simp: Feed_sources_set_iff [of f] list_all_iff Entry_Validate_returns)
  then show ?thesis
    by (simp add: Feed_Validate_unfold [of ck f] Merge_each_returns comp_def)
qed

lemma Entry_report_no_source:
  assumes "entry_Source e = None"
  shows "report (Entry_Validate ck e) =
           Entry_issues_to_Published ck e @ Entry_issues_Summary_to_Updated ck e"
  using assms by (simp add: Entry_Validate_unfold [of ck e])

lemma Entry_report_source:
  assumes "entry_Source e = Some s" "source_Feed s = Some f" "Feed_sources_set f"
  shows "report (Entry_Validate ck e) =
           Entry_issues_to_Published ck e
           @ (if feed_Entry f \<noteq> [] then [''Entry.Source can't contain any entries.''] else [])
           @ Entry_issues_Summary_to_Updated ck e
           @ report (Feed_Validate ck f)"
  using assms Feed_Validate_returns [of f ck]
  by (simp add: Entry_Validate_unfold [of ck e] and_then_Merge_then)

section \<open>The finish step and the rendered error\<close>

lemma Error_loop_eq:
  "Error_loop result xs = result @ concat (map (\<lambda>issue. ''- '' @ issue @ [CHR 0x0A]) xs)"
  by (induction xs arbitrary: result) simp_all

text \<open>
  C8. \<open>NilIfEmpty\<close> returns nil exactly when no issue was collected and the
  aggregator itself otherwise; \<open>Error()\<close> renders the header line
  "An ATOM validation error occured:" and then one line "- issue" per collected issue,
  in the order of collection, each line ended by a newline.
\<close>

theorem NilIfEmpty_and_Error:
  "NilIfEmpty err = (if issues err = [] then NoError else ValidationErr err)
   \<and> Error err = ''An ATOM validation error occured:'' @ [CHR 0x0A]
                  @ concat (map (\<lambda>issue. ''- '' @ issue @ [CHR 0x0A]) (issues err))"
  by (simp add: NilIfEmpty_def Error_def Error_loop_eq)

theorem NilIfEmpty_and_Error_witness:
  "NilIfEmpty \<lparr>issues = []\<rparr> = NoError
   \<and> NilIfEmpty \<lparr>issues = [''a'', ''b'']\<rparr> = ValidationErr \<lparr>issues = [''a'', ''b'']\<rparr>
   \<and> Error \<lparr>issues = [''a'', ''b'']\<rparr>
       = ''An ATOM validation error occured:'' @ [CHR 0x0A] @ ''- a'' @ [CHR 0x0A]
         @ ''- b'' @ [CHR 0x0A]"
  using NilIfEmpty_and_Error [of "\<lparr>issues = []\<rparr>"]
    NilIfEmpty_and_Error [of "\<lparr>issues = [''a'', ''b'']\<rparr>"]
  by simp

section \<open>Categories\<close>

text \<open>
  C7. The claim is that a category with an empty term gets a required-field issue.
  \<open>Category.validate\<close> never reads \<open>Term\<close>: a category with no term and nothing
  else wrong validates to nil, whatever the checkers are, and changing the term of
  any category leaves the result as it was.
\<close>

theorem Category_validate_ignores_Term:
  "Category_validate ck termless_Category = Inr NoError
   \<and> Category_validate ck (c\<lparr>category_Term := t\<rparr>) = Category_validate ck c"
  by (simp add: Category_validate_eq validateCommon_eq termless_Category_def zero_Common_def
      NilIfEmpty_def)

section \<open>Panics\<close>

text \<open>
  C9. An entry whose \<open>Source\<close> is set while \<open>Source.Feed\<close> is nil makes
  \<open>Entry.Validate\<close> panic on the nil pointer instead of returning a report. More
  generally the run returns exactly when no source reached from the entry has a nil
  feed, and it panics on the nil pointer otherwise.
\<close>

theorem Entry_Validate_nil_source_Feed:
  "(entry_Source e = Some s \<and> source_Feed s = None
      \<longrightarrow> Entry_Validate ck e = Inl NilPointerDereference)
   \<and> returns (Entry_Validate ck e) = Entry_sources_set e
   \<and> (\<not> Entry_sources_set e \<longrightarrow> Entry_Validate ck e = Inl NilPointerDereference)"
proof (intro conjI impI)
  assume "entry_Source e = Some s \<and> source_Feed s = None"
  then show "Entry_Validate ck e = Inl NilPointerDereference"
    by (simp add: Entry_Validate_unfold [of ck e])
next
  show "returns (Entry_Validate ck e) = Entry_sources_set e"
    using Entry_Feed_outcome(1) [of e ck] by (cases "Entry_sources_set e") simp_all
next
  assume "\<not> Entry_sources_set e"
  then show "Entry_Validate ck e = Inl NilPointerDereference"
    by (simp add: Entry_Feed_outcome)
qed

theorem Entry_Validate_nil_source_Feed_witness:
  "entry_Source nil_source_Entry = Some (Source None) \<and> source_Feed (Source None) = None
   \<and> Entry_Validate accept_all nil_source_Entry = Inl NilPointerDereference
   \<and> \<not> Entry_sources_set nil_source_Entry
   \<and> Entry_sources_set plain_Entry \<and> returns (Entry_Validate accept_all plain_Entry)"
  using Entry_Validate_nil_source_Feed [of nil_source_Entry "Source None" accept_all]
    Entry_Validate_nil_source_Feed [of plain_Entry "Source None" accept_all]
  by (simp add: nil_source_Entry_def plain_Entry_def simple_Entry_def)

text \<open>
  C10. \<open>Merge\<close> panics on an error that is not a \<open>*ValidationError\<close> and leaves
  the aggregator as it is on nil. No validator of the package returns such an error,
  so no \<open>Merge\<close> in the package is handed one, and no run of a validator ends in
  the failed type assertion.
\<close>

theorem Merge_assertion_never_fails:
  "Merge err (ForeignErr m) = Inl TypeAssertionFailed
   \<and> Merge err NoError = Inr err
   \<and> validateCommon ck c \<noteq> ForeignErr m
   \<and> TimeStr_validate ck t \<noteq> ForeignErr m
   \<and> Text_validate ck tx b \<noteq> Inr (ForeignErr m)
   \<and> Text_validate ck tx b \<noteq> Inl TypeAssertionFailed
   \<and> Person_validate ck p \<noteq> Inr (ForeignErr m)
   \<and> Person_validate ck p \<noteq> Inl TypeAssertionFailed
   \<and> Category_validate ck ca \<noteq> Inr (ForeignErr m)
   \<and> Category_validate ck ca \<noteq> Inl TypeAssertionFailed
   \<and> Generator_validate ck g \<noteq> Inr (ForeignErr m)
   \<and> Generator_validate ck g \<noteq> Inl TypeAssertionFailed
   \<and> Link_validate ck l \<noteq> Inr (ForeignErr m)
   \<and> Link_validate ck l \<noteq> Inl TypeAssertionFailed
   \<and> Entry_Validate ck e \<noteq> Inr (ForeignErr m)
   \<and> Entry_Validate ck e \<noteq> Inl TypeAssertionFailed
   \<and> Feed_Validate ck f \<noteq> Inr (ForeignErr m)
   \<and> Feed_Validate ck f \<noteq> Inl TypeAssertionFailed"
proof -
  have leaf: "r \<noteq> Inr (ForeignErr m) \<and> r \<noteq> Inl TypeAssertionFailed" if "returns r" for r
    using that by (cases r rule: returns.cases) simp_all
  have direct: "validateCommon ck c \<noteq> ForeignErr m" "TimeStr_validate ck t \<noteq> ForeignErr m"
    using leaf [of "Inr (validateCommon ck c)"] leaf [of "Inr (TimeStr_validate ck t)"]
    by simp_all
  have entry: "Entry_Validate ck e \<noteq> Inr (ForeignErr m)
      \<and> Entry_Validate ck e \<noteq> Inl TypeAssertionFailed"
    using Entry_Feed_outcome(1) [of e ck] leaf [of "Entry_Validate ck e"]
    by (cases "Entry_sources_set e") simp_all
  have feed: "Feed_Validate ck f \<noteq> Inr (ForeignErr m)
      \<and> Feed_Validate ck f \<noteq> Inl TypeAssertionFailed"
    using Entry_Feed_outcome(2) [of f ck] leaf [of "Feed_Validate ck f"]
    by (cases "Feed_sources_set f") simp_all
  show ?thesis
    using direct entry feed leaf [of "Text_validate ck tx b"] leaf [of "Person_validate ck p"]
      leaf [of "Category_validate ck ca"] leaf [of "Generator_validate ck g"]
      leaf [of "Link_validate ck l"]
    by (simp add: Merge_def)
qed

section \<open>Counting one issue in a report\<close>

lemma count_list_0: "m \<notin> set xs \<Longrightarrow> count_list xs m = 0"
  by (simp add: count_list_0_iff)

lemma count_list_concat_map:
  "count_list (concat (map g xs)) m = sum_list (map (\<lambda>x. count_list (g x) m) xs)"
  by (induction xs) simp_all

lemma notin_concat_map: "(\<And>x. m \<notin> set (g x)) \<Longrightarrow> m \<notin> set (concat (map g xs))"
  by auto

lemma never_emitsD:
  assumes "never_emits ck m"
  shows "url_Parse ck s \<noteq> Some m" "Some m \<noteq> url_Parse ck s"
    and "mail_ParseAddress ck s \<noteq> Some m" "Some m \<noteq> mail_ParseAddress ck s"
    and "time_Parse ck s \<noteq> Some m" "Some m \<noteq> time_Parse ck s"
  using assms unfolding never_emits_def by (metis)+

lemma never_emits_cases:
  assumes "never_emits ck m"
  shows "m \<notin> set (case url_Parse ck s of None \<Rightarrow> [] | Some e \<Rightarrow> [e])"
    and "m \<notin> set (case mail_ParseAddress ck s of None \<Rightarrow> [] | Some e \<Rightarrow> [e])"
    and "m \<notin> set (case time_Parse ck s of None \<Rightarrow> [] | Some e \<Rightarrow> [e])"
  using assms by (auto simp: never_emitsD split: option.split)

lemma never_emits_validateCommon:
  "never_emits ck m \<Longrightarrow> m \<notin> set (issues_of (validateCommon ck c))"
  by (simp add: validateCommon_eq never_emitsD never_emits_cases)

lemma never_emits_TimeStr:
  "never_emits ck m \<Longrightarrow> m \<notin> set (issues_of (TimeStr_validate ck t))"
  by (simp add: TimeStr_validate_eq never_emitsD never_emits_cases)

lemma never_emits_leaf:
  assumes "never_emits ck m"
  shows "m \<notin> set (report (Person_validate ck p))"
    and "m \<notin> set (report (Category_validate ck c))"
    and "m \<notin> set (report (Generator_validate ck g))"
    and "m \<notin> set (report (Link_validate ck l))"
    and "m \<notin> set (report (Text_validate ck t True))"
    and "m \<noteq> ''Text.Type must be either: text, html or xhtml.''
           \<Longrightarrow> m \<notin> set (report (Text_validate ck t False))"
  using assms
  by (simp_all add: Person_validate_eq Category_validate_eq Generator_validate_eq
      Link_validate_eq Text_validate_eq never_emitsD never_emits_cases
      never_emits_validateCommon)

lemma collected_Link_loop_Cons:
  "collected (Link_loop ck new_ValidationError b (l # ls)) =
     report (Link_validate ck l)
     @ (if link_Rel l = ''alternate'' \<and> b
        then [''Only one Feed.Link with rel='' @ [CHR 0x22] @ ''alternate'' @ [CHR 0x22]
              @ '' can exist.'']
        else [])
     @ collected (Link_loop ck new_ValidationError (b \<or> link_Rel l = ''alternate'') ls)"
  by (simp add: and_then_Merge_then Add_extend Link_loop_eq [of _ "extend _ _"])

lemma Link_loop_count:
  assumes "never_emits ck (''Only one Feed.Link with rel='' @ [CHR 0x22] @ ''alternate''
             @ [CHR 0x22] @ '' can exist.'')"
  shows "count_list (collected (Link_loop ck new_ValidationError b ls))
           (''Only one Feed.Link with rel='' @ [CHR 0x22] @ ''alternate'' @ [CHR 0x22]
            @ '' can exist.'')
         = (if b then length (filter (\<lambda>l. link_Rel l = ''alternate'') ls)
            else length (filter (\<lambda>l. link_Rel l = ''alternate'') ls) - 1)"
proof (induction ls arbitrary: b)
  case Nil
  show ?case by simp
next
  case (Cons l ls)
  from assms have "count_list (report (Link_validate ck l))
      (''Only one Feed.Link with rel='' @ [CHR 0x22] @ ''alternate'' @ [CHR 0x22]
            @ '' can exist.'') = 0"
    by (intro count_list_0 never_emits_leaf)
  then show ?case
    using Cons.IH [of "b \<or> link_Rel l = ''alternate''"]
    by (simp add: collected_Link_loop_Cons del: Link_loop.simps)
qed

lemma Link_loop_other:
  assumes "never_emits ck m"
    and "m \<noteq> ''Only one Feed.Link with rel='' @ [CHR 0x22] @ ''alternate'' @ [CHR 0x22]
            @ '' can exist.''"
  shows "m \<notin> set (collected (Link_loop ck new_ValidationError b ls))"
proof (induction ls arbitrary: b)
  case Nil
  show ?case by simp
next
  case (Cons l ls)
  from assms(1) have "m \<notin> set (report (Link_validate ck l))"
    by (rule never_emits_leaf)
  then show ?case
    using Cons.IH [of "b \<or> link_Rel l = ''alternate''"] assms(2)
    by (simp add: collected_Link_loop_Cons del: Link_loop.simps)
qed

lemma segment_silent:
  assumes "never_emits ck m"
  shows "count_list (issues_of (validateCommon ck c)) m = 0"
    and "count_list (issues_of (TimeStr_validate ck ts)) m = 0"
    and "count_list (concat (map (\<lambda>p. report (Person_validate ck p)) ps)) m = 0"
    and "count_list (concat (map (\<lambda>c. report (Category_validate ck c)) cs)) m = 0"
    and "count_list (case g of None \<Rightarrow> [] | Some g \<Rightarrow> report (Generator_validate ck g)) m = 0"
    and "count_list (case t of None \<Rightarrow> [] | Some t \<Rightarrow> report (Text_validate ck t True)) m = 0"
    and "count_list (case url_Parse ck s of None \<Rightarrow> [] | Some e \<Rightarrow> [e]) m = 0"
proof -
  show "count_list (issues_of (validateCommon ck c)) m = 0"
    using assms by (intro count_list_0 never_emits_validateCommon)
  show "count_list (issues_of (TimeStr_validate ck ts)) m = 0"
    using assms by (intro count_list_0 never_emits_TimeStr)
  show "count_list (concat (map (\<lambda>p. report (Person_validate ck p)) ps)) m = 0"
    using assms by (intro count_list_0 notin_concat_map never_emits_leaf)
  show "count_list (concat (map (\<lambda>c. report (Category_validate ck c)) cs)) m = 0"
    using assms by (intro count_list_0 notin_concat_map never_emits_leaf)
  show "count_list (case g of None \<Rightarrow> [] | Some g \<Rightarrow> report (Generator_validate ck g)) m = 0"
    using never_emits_leaf(3) [OF assms] by (cases g) (simp_all add: count_list_0)
  show "count_list (case t of None \<Rightarrow> [] | Some t \<Rightarrow> report (Text_validate ck t True)) m = 0"
    using never_emits_leaf(5) [OF assms] by (cases t) (simp_all add: count_list_0)
  show "count_list (case url_Parse ck s of None \<Rightarrow> [] | Some e \<Rightarrow> [e]) m = 0"
    using assms by (intro count_list_0 never_emits_cases)
qed

lemma count_list_if: "count_list (if c then xs else ys) m = (if c then count_list xs m else count_list ys m)"
  by simp

lemma Entry_segments_count:
  assumes "never_emits ck alternate_issue"
  shows "count_list (Entry_issues_to_Published ck e) alternate_issue
          = length (filter (\<lambda>l. link_Rel l = ''alternate'') (entry_Link e)) - 1"
    and "count_list (Entry_issues_Summary_to_Updated ck e) alternate_issue = 0"
proof -
  show "count_list (Entry_issues_to_Published ck e) alternate_issue
          = length (filter (\<lambda>l. link_Rel l = ''alternate'') (entry_Link e)) - 1"
    unfolding Entry_issues_to_Published_def
    by (simp add: segment_silent [OF assms] Link_loop_count [OF assms] count_list_if
        del: append.simps)
  have "count_list (case entry_Summary e of None \<Rightarrow> []
          | Some t \<Rightarrow> report (Text_validate ck t False)) alternate_issue = 0"
    using never_emits_leaf(6) [OF assms]
    by (cases "entry_Summary e") (simp_all add: count_list_0)
  then show "count_list (Entry_issues_Summary_to_Updated ck e) alternate_issue = 0"
    unfolding Entry_issues_Summary_to_Updated_def
    by (simp add: segment_silent [OF assms] count_list_if del: append.simps)
qed

lemma Feed_report_count:
  assumes "Feed_sources_set f"
  shows "count_list (report (Feed_Validate ck f)) m
         = count_list (Feed_issues_own ck f) m
           + sum_list (map (\<lambda>e. count_list (report (Entry_Validate ck e)) m) (feed_Entry f))"
  by (simp add: Feed_report [OF assms] count_list_concat_map del: append.simps)

lemma Entry_report_count:
  assumes "Entry_sources_set e"
    and "m \<noteq> ''Entry.Source can't contain any entries.''"
  shows "count_list (report (Entry_Validate ck e)) m
         = count_list (Entry_issues_to_Published ck e) m
           + count_list (Entry_issues_Summary_to_Updated ck e) m
           + (case entry_Source e of
                None \<Rightarrow> 0
              | Some s \<Rightarrow> (case source_Feed s of
                   None \<Rightarrow> 0
                 | Some g \<Rightarrow> count_list (report (Feed_Validate ck g)) m))"
proof (cases "entry_Source e")
  case None
  then show ?thesis
    by (simp add: Entry_report_no_source del: append.simps)
next
  case (Some s)
  with assms(1) obtain g where g: "source_Feed s = Some g" "Feed_sources_set g"
    by (auto simp: Entry_sources_set_iff [of e] split: option.splits)
  show ?thesis
    using Some g assms(2)
    by (simp add: Entry_report_source [OF Some g] count_list_if del: append.simps)
qed

lemma Entry_to_Published_silent:
  assumes "never_emits ck m"
    and "m \<noteq> ''Entry.ID can't be empty.''"
    and "m \<noteq> alternate_issue"
  shows "count_list (Entry_issues_to_Published ck e) m = 0"
  unfolding Entry_issues_to_Published_def
  using assms(2)
  by (simp add: segment_silent [OF assms(1)] Link_loop_other [OF assms(1) assms(3)]
      count_list_0 count_list_if del: append.simps)

lemma Text_validate_count:
  assumes "never_emits ck ''Text.Type must be either: text, html or xhtml.''"
  shows "count_list (report (Text_validate ck t b)) ''Text.Type must be either: text, html or xhtml.''
         = (if \<not> b \<and> text_Type t \<noteq> [] \<and> text_Type t \<noteq> ''text'' \<and> text_Type t \<noteq> ''html''
               \<and> text_Type t \<noteq> ''xhtml'' then 1 else 0)"
  by (simp add: Text_validate_eq segment_silent [OF assms] count_list_if del: append.simps)

lemma Entry_Summary_to_Updated_silent:
  assumes "never_emits ck m"
    and "m \<noteq> ''Text.Type must be either: text, html or xhtml.''"
    and "m \<noteq> ''Entry.Title can't be empty.''"
    and "m \<noteq> ''Entry.Updated can't be empty.''"
  shows "count_list (Entry_issues_Summary_to_Updated ck e) m = 0"
proof -
  have "count_list (case entry_Summary e of None \<Rightarrow> []
          | Some t \<Rightarrow> report (Text_validate ck t False)) m = 0"
    using never_emits_leaf(6) [OF assms(1) assms(2)]
    by (cases "entry_Summary e") (simp_all add: count_list_0)
  then show ?thesis
    unfolding Entry_issues_Summary_to_Updated_def
    using assms(3,4)
    by (simp add: segment_silent [OF assms(1)] count_list_if del: append.simps)
qed

lemma Feed_own_author_count:
  assumes "never_emits ck ''Author must be present in Feed or in every Entry.''"
  shows "count_list (Feed_issues_own ck f) ''Author must be present in Feed or in every Entry.''
         = (if feed_Author f = [] \<and> list_ex (\<lambda>e. entry_Author e = []) (feed_Entry f)
            then 1 else 0)"
  unfolding Feed_issues_own_def
  by (simp add: segment_silent [OF assms] Link_loop_other [OF assms] count_list_0
      count_list_if del: append.simps)

lemma Feed_own_Text_silent:
  assumes "never_emits ck ''Text.Type must be either: text, html or xhtml.''"
  shows "count_list (Feed_issues_own ck f) ''Text.Type must be either: text, html or xhtml.'' = 0"
  unfolding Feed_issues_own_def
  by (simp add: segment_silent [OF assms] Link_loop_other [OF assms] count_list_0
      count_list_if del: append.simps)

lemma never_emits_accept_all [simp]: "never_emits accept_all m"
  by (simp add: never_emits_def accept_all_def)

lemma never_emits_reject_other_times:
  "m \<noteq> ''parsing time: cannot parse'' \<Longrightarrow> never_emits reject_other_times m"
  by (auto simp: never_emits_def reject_other_times_def)

lemma TimeStr_issue_reported:
  "time_Parse ck t = Some m \<Longrightarrow> issues_of (TimeStr_validate ck t) = [m]"
  by (simp add: TimeStr_validate_eq)

section \<open>Checkers that differ on the empty timestamp only\<close>

text \<open>
  The validators call the time parser under a guard that the string is not empty
  (lines 205, 223 and 307), so two families of checkers that agree everywhere but on
  the time parser's answer for the empty string give the same outcome.
\<close>

lemma leaf_agree:
  assumes "url_Parse ck' = url_Parse ck"
    and "mail_ParseAddress ck' = mail_ParseAddress ck"
  shows "validateCommon ck' c = validateCommon ck c"
    and "Person_validate ck' p = Person_validate ck p"
    and "Category_validate ck' ca = Category_validate ck ca"
    and "Generator_validate ck' g = Generator_validate ck g"
    and "Link_validate ck' l = Link_validate ck l"
    and "Text_validate ck' t b = Text_validate ck t b"
  by (simp_all add: validateCommon_def Person_validate_def Category_validate_def
      Generator_validate_def Link_validate_def Text_validate_def assms Let_def
      cong: if_cong option.case_cong)

lemma Link_loop_agree:
  assumes "url_Parse ck' = url_Parse ck"
    and "mail_ParseAddress ck' = mail_ParseAddress ck"
  shows "Link_loop ck' errs b ls = Link_loop ck errs b ls"
  by (induction ls arbitrary: errs b) (simp_all add: leaf_agree [OF assms] cong: if_cong)

lemma TimeStr_validate_agree:
  "time_Parse ck' t = time_Parse ck t \<Longrightarrow> TimeStr_validate ck' t = TimeStr_validate ck t"
  by (simp add: TimeStr_validate_def)

lemma segments_agree:
  assumes "url_Parse ck' = url_Parse ck"
    and "mail_ParseAddress ck' = mail_ParseAddress ck"
    and "\<And>s. s \<noteq> [] \<Longrightarrow> time_Parse ck' s = time_Parse ck s"
  shows "Feed_issues_own ck' f = Feed_issues_own ck f"
    and "Entry_issues_to_Published ck' e = Entry_issues_to_Published ck e"
    and "Entry_issues_Summary_to_Updated ck' e = Entry_issues_Summary_to_Updated ck e"
  unfolding Feed_issues_own_def Entry_issues_to_Published_def Entry_issues_Summary_to_Updated_def
  by (simp_all add: leaf_agree [OF assms(1,2)] Link_loop_agree [OF assms(1,2)] assms(1)
      TimeStr_validate_agree [OF assms(3)] cong: if_cong option.case_cong)

lemma Validate_agree:
  assumes "url_Parse ck' = url_Parse ck"
    and "mail_ParseAddress ck' = mail_ParseAddress ck"
    and "\<And>s. s \<noteq> [] \<Longrightarrow> time_Parse ck' s = time_Parse ck s"
  shows "Entry_Validate ck' e = Entry_Validate ck e"
    and "Feed_Validate ck' f = Feed_Validate ck f"
proof (induction e and f rule: Entry_Feed_induct)
  case (1 entry)
  show ?case
  proof (cases "entry_Source entry")
    case None
    then show ?thesis
      by (simp add: Entry_Validate_unfold [of _ entry] segments_agree [OF assms])
  next
    case (Some s)
    show ?thesis
    proof (cases "source_Feed s")
      case None
      with Some show ?thesis by (simp add: Entry_Validate_unfold [of _ entry])
    next
      case (Some g)
      with \<open>entry_Source entry = Some s\<close> 1
      have "Feed_Validate ck' g = Feed_Validate ck g"
        by blast
      with Some \<open>entry_Source entry = Some s\<close> show ?thesis
        by (simp add: Entry_Validate_unfold [of _ entry] segments_agree [OF assms])
    qed
  qed
next
  case (2 feed)
  then have entries:
    "map (Entry_Validate ck') (feed_Entry feed) = map (Entry_Validate ck) (feed_Entry feed)"
    by simp
  have own: "Feed_issues_own ck' feed = Feed_issues_own ck feed"
    using assms by (rule segments_agree)
  show ?case
    unfolding Feed_Validate_unfold [of ck' feed] Feed_Validate_unfold [of ck feed] own entries
    by (rule refl)
qed

text \<open>Facts that evaluate a validator on a concrete input.\<close>

lemmas inputs = accept_all_def reject_empty_time_def zero_Common_def alternate_Link_def john_def
  invalid_Text_def simple_Feed_def simple_Entry_def plain_Entry_def anonymous_Entry_def

lemmas run = Feed_report Entry_report_no_source Entry_report_source Feed_issues_own_def
  Entry_issues_to_Published_def Entry_issues_Summary_to_Updated_def
  Person_validate_eq Category_validate_eq Generator_validate_eq Link_validate_eq
  Text_validate_eq TimeStr_validate_eq validateCommon_eq
  Merge_returns and_then_Merge_then Add_extend

section \<open>Alternate links\<close>

text \<open>
  C1, as the code has it. The claim says the issue
  "Only one Feed.Link with rel="alternate" can exist." is reported exactly once however
  many alternate links a feed has. The link loop adds it for every alternate link after
  the first: when the source pointers are set and the checkers never produce this text
  themselves, the report of a feed holds the issue once per alternate link of the feed
  beyond the first, plus the occurrences in the reports of its entries; and the report
  of an entry holds it once per alternate link of the entry beyond the first (the loop
  of lines 192-203 is the same), plus the occurrences in the report of its source feed.
  The two equations determine the count for a whole tree of feeds and entries.
\<close>

theorem Feed_alternate_links_count:
  assumes "Feed_sources_set f"
    and "Entry_sources_set e"
    and "never_emits ck alternate_issue"
  shows "returns (Feed_Validate ck f)
     \<and> count_list (report (Feed_Validate ck f))
         alternate_issue
       = (length (filter (\<lambda>l. link_Rel l = ''alternate'') (feed_Link f)) - 1)
         + sum_list (map (\<lambda>e. count_list (report (Entry_Validate ck e))
               alternate_issue) (feed_Entry f))
     \<and> returns (Entry_Validate ck e)
     \<and> count_list (report (Entry_Validate ck e)) alternate_issue
       = (length (filter (\<lambda>l. link_Rel l = ''alternate'') (entry_Link e)) - 1)
         + (case entry_Source e of
              None \<Rightarrow> 0
            | Some s \<Rightarrow> (case source_Feed s of
                 None \<Rightarrow> 0
               | Some g \<Rightarrow> count_list (report (Feed_Validate ck g)) alternate_issue))"
proof (intro conjI)
  show "returns (Feed_Validate ck f)"
    using assms(1) by (rule Feed_Validate_returns)
  show "returns (Entry_Validate ck e)"
    using assms(2) by (rule Entry_Validate_returns)
  have "count_list (Feed_issues_own ck f)
         alternate_issue
       = length (filter (\<lambda>l. link_Rel l = ''alternate'') (feed_Link f)) - 1"
    unfolding Feed_issues_own_def
    by (simp add: segment_silent [OF assms(3)] Link_loop_count [OF assms(3)] count_list_if
        del: append.simps)
  then show "count_list (report (Feed_Validate ck f))
         alternate_issue
       = (length (filter (\<lambda>l. link_Rel l = ''alternate'') (feed_Link f)) - 1)
         + sum_list (map (\<lambda>e. count_list (report (Entry_Validate ck e))
               alternate_issue) (feed_Entry f))"
    by (simp add: Feed_report [OF assms(1)] count_list_concat_map del: append.simps)
  show "count_list (report (Entry_Validate ck e)) alternate_issue
       = (length (filter (\<lambda>l. link_Rel l = ''alternate'') (entry_Link e)) - 1)
         + (case entry_Source e of
              None \<Rightarrow> 0
            | Some s \<Rightarrow> (case source_Feed s of
                 None \<Rightarrow> 0
               | Some g \<Rightarrow> count_list (report (Feed_Validate ck g)) alternate_issue))"
  proof (cases "entry_Source e")
    case None
    then show ?thesis
      by (simp add: Entry_report_no_source Entry_segments_count [OF assms(3)]
          del: append.simps)
  next
    case (Some s)
    with assms(2) obtain g where g: "source_Feed s = Some g" "Feed_sources_set g"
      by (auto simp: Entry_sources_set_iff [of e] split: option.splits)
    show ?thesis
      using Some g
      by (simp add: Entry_report_source [OF Some g] Entry_segments_count [OF assms(3)]
          count_list_if del: append.simps)
  qed
qed

theorem Feed_alternate_links_count_witness:
  "Feed_sources_set alternates_in_entries_Feed
   \<and> Entry_sources_set three_alternates_Entry
   \<and> Entry_sources_set sourced_alternates_Entry
   \<and> never_emits accept_all alternate_issue
   \<and> map link_Rel (entry_Link three_alternates_Entry)
       = [''alternate'', ''alternate'', ''alternate'']
   \<and> count_list (report (Entry_Validate accept_all three_alternates_Entry)) alternate_issue = 2
   \<and> count_list (report (Feed_Validate accept_all three_alternates_Feed)) alternate_issue = 2
   \<and> count_list (report (Entry_Validate accept_all sourced_alternates_Entry)) alternate_issue = 3
   \<and> returns (Feed_Validate accept_all alternates_in_entries_Feed)
   \<and> count_list (report (Feed_Validate accept_all alternates_in_entries_Feed)) alternate_issue = 6"
  using Feed_alternate_links_count [of alternates_in_entries_Feed three_alternates_Entry accept_all]
    Feed_alternate_links_count [of three_alternates_Feed sourced_alternates_Entry accept_all]
  by (simp add: alternates_in_entries_Feed_def three_alternates_Entry_def
      sourced_alternates_Entry_def three_alternates_Feed_def simple_Feed_def alternate_Link_def)

text \<open>
  C1, the claim refuted: a feed with three alternate links and nothing else wrong is
  reported with the issue twice.
\<close>

theorem three_alternates_reported_twice:
  "map link_Rel (feed_Link three_alternates_Feed) = [''alternate'', ''alternate'', ''alternate'']
   \<and> report (Feed_Validate accept_all three_alternates_Feed) = [alternate_issue, alternate_issue]"
  by (simp add: three_alternates_Feed_def inputs run)

section \<open>The two checks of Feed.Updated\<close>

text \<open>
  C2. The two checks of lines 303-311 add "Feed.Updated can't be empty." twice for a
  feed with an empty updated and not at all otherwise: the report holds the issue
  twice, or never, beside the occurrences in the reports of the entries (an entry's
  source feed is a feed of its own). With a non-empty updated the time check runs
  and what the parser says is in the report.
\<close>

theorem Feed_Updated_empty_twice:
  assumes "Feed_sources_set f"
    and "never_emits ck ''Feed.Updated can't be empty.''"
  shows "returns (Feed_Validate ck f)
     \<and> count_list (report (Feed_Validate ck f)) ''Feed.Updated can't be empty.''
       = (if feed_Updated f = [] then 2 else 0)
         + sum_list (map (\<lambda>e. count_list (report (Entry_Validate ck e))
               ''Feed.Updated can't be empty.'') (feed_Entry f))
     \<and> (feed_Updated f \<noteq> [] \<longrightarrow>
          (\<forall>m. time_Parse ck (feed_Updated f) = Some m
                \<longrightarrow> m \<in> set (report (Feed_Validate ck f))))"
proof (intro conjI impI allI)
  show "returns (Feed_Validate ck f)"
    using assms(1) by (rule Feed_Validate_returns)
  have "count_list (Feed_issues_own ck f) ''Feed.Updated can't be empty.''
       = (if feed_Updated f = [] then 2 else 0)"
    unfolding Feed_issues_own_def
    by (simp add: segment_silent [OF assms(2)] Link_loop_other [OF assms(2)] count_list_0
        count_list_if)
  then show "count_list (report (Feed_Validate ck f)) ''Feed.Updated can't be empty.''
       = (if feed_Updated f = [] then 2 else 0)
         + sum_list (map (\<lambda>e. count_list (report (Entry_Validate ck e))
               ''Feed.Updated can't be empty.'') (feed_Entry f))"
    by (simp add: Feed_report [OF assms(1)] count_list_concat_map)
next
  fix m
  assume "feed_Updated f \<noteq> []" and "time_Parse ck (feed_Updated f) = Some m"
  then have "m \<in> set (Feed_issues_own ck f)"
    unfolding Feed_issues_own_def by (simp add: TimeStr_issue_reported)
  then show "m \<in> set (report (Feed_Validate ck f))"
    by (simp add: Feed_report [OF assms(1)])
qed

theorem Feed_Updated_empty_twice_witness:
  "Feed_sources_set blank_Feed \<and> never_emits accept_all ''Feed.Updated can't be empty.''
   \<and> feed_Updated blank_Feed = []
   \<and> count_list (report (Feed_Validate accept_all blank_Feed)) ''Feed.Updated can't be empty.'' = 2
   \<and> Feed_sources_set stale_Feed
   \<and> never_emits reject_other_times ''Feed.Updated can't be empty.''
   \<and> feed_Updated stale_Feed = ''yesterday''
   \<and> time_Parse reject_other_times ''yesterday'' = Some ''parsing time: cannot parse''
   \<and> count_list (report (Feed_Validate reject_other_times stale_Feed))
        ''Feed.Updated can't be empty.'' = 0
   \<and> ''parsing time: cannot parse'' \<in> set (report (Feed_Validate reject_other_times stale_Feed))"
  using Feed_Updated_empty_twice [of blank_Feed accept_all]
    Feed_Updated_empty_twice [of stale_Feed reject_other_times]
  by (simp add: blank_Feed_def stale_Feed_def simple_Feed_def
      never_emits_reject_other_times)
     (simp add: reject_other_times_def)

section \<open>Author coverage\<close>

text \<open>
  C3, as the code has it. The claim says that a feed without authors is reported with
  "Author must be present in Feed or in every Entry." exactly once when some entry has
  no authors, never when every entry has one, and that a feed with an author skips the
  check. The loop of lines 249-256 adds the issue once and breaks, and runs only for a
  feed without authors; but every source feed embedded in an entry is validated by the
  same code and its issues are merged. When the source pointers are set and the
  checkers never produce this text themselves: the report of a feed holds the issue
  once exactly when the feed has no authors and some entry has none, plus the
  occurrences in the reports of its entries; the report of an entry holds only the
  occurrences in the report of its source feed; so for a feed none of whose entries has
  a source the count is one, or zero, as the claim says.
\<close>

theorem Feed_author_coverage:
  assumes "Feed_sources_set f"
    and "Entry_sources_set e"
    and "never_emits ck ''Author must be present in Feed or in every Entry.''"
  shows "returns (Feed_Validate ck f)
     \<and> count_list (report (Feed_Validate ck f))
         ''Author must be present in Feed or in every Entry.''
       = (if feed_Author f = [] \<and> list_ex (\<lambda>e. entry_Author e = []) (feed_Entry f)
          then 1 else 0)
         + sum_list (map (\<lambda>e. count_list (report (Entry_Validate ck e))
               ''Author must be present in Feed or in every Entry.'') (feed_Entry f))
     \<and> count_list (report (Entry_Validate ck e))
         ''Author must be present in Feed or in every Entry.''
       = (case entry_Source e of
            None \<Rightarrow> 0
          | Some s \<Rightarrow> (case source_Feed s of
               None \<Rightarrow> 0
             | Some g \<Rightarrow> count_list (report (Feed_Validate ck g))
                 ''Author must be present in Feed or in every Entry.''))
     \<and> (list_all (\<lambda>e. entry_Source e = None) (feed_Entry f) \<longrightarrow>
          count_list (report (Feed_Validate ck f))
            ''Author must be present in Feed or in every Entry.''
          = (if feed_Author f = [] \<and> list_ex (\<lambda>e. entry_Author e = []) (feed_Entry f)
             then 1 else 0))"
proof -
  let ?m = "''Author must be present in Feed or in every Entry.''"
  have entry: "count_list (report (Entry_Validate ck x)) ?m
       = (case entry_Source x of
            None \<Rightarrow> 0
          | Some s \<Rightarrow> (case source_Feed s of
               None \<Rightarrow> 0
             | Some g \<Rightarrow> count_list (report (Feed_Validate ck g)) ?m))"
    if "Entry_sources_set x" for x
    using that
    by (simp add: Entry_report_count Entry_to_Published_silent [OF assms(3)]
        Entry_Summary_to_Updated_silent [OF assms(3)])
  have feed: "count_list (report (Feed_Validate ck f)) ?m
       = (if feed_Author f = [] \<and> list_ex (\<lambda>e. entry_Author e = []) (feed_Entry f)
          then 1 else 0)
         + sum_list (map (\<lambda>e. count_list (report (Entry_Validate ck e)) ?m) (feed_Entry f))"
    by (simp only: Feed_report_count [OF assms(1)] Feed_own_author_count [OF assms(3)])
  have plain: "sum_list (map (\<lambda>e. count_list (report (Entry_Validate ck e)) ?m) (feed_Entry f)) = 0"
    if "list_all (\<lambda>e. entry_Source e = None) (feed_Entry f)"
  proof -
    have "count_list (report (Entry_Validate ck x)) ?m = 0" if "x \<in> set (feed_Entry f)" for x
    proof -
      from that \<open>list_all (\<lambda>e. entry_Source e = None) (feed_Entry f)\<close>
      have "entry_Source x = None" by (simp add: list_all_iff)
      moreover from that assms(1) have "Entry_sources_set x"
        by (simp add: Feed_sources_set_iff [of f] list_all_iff)
      ultimately show ?thesis using entry [of x] by simp
    qed
    then show ?thesis by (simp add: sum_list_eq_0_iff)
  qed
  show ?thesis
  proof (intro conjI impI)
    show "returns (Feed_Validate ck f)" using assms(1) by (rule Feed_Validate_returns)
    show "count_list (report (Feed_Validate ck f)) ?m
       = (if feed_Author f = [] \<and> list_ex (\<lambda>e. entry_Author e = []) (feed_Entry f)
          then 1 else 0)
         + sum_list (map (\<lambda>e. count_list (report (Entry_Validate ck e)) ?m) (feed_Entry f))"
      by (rule feed)
    show "count_list (report (Entry_Validate ck e)) ?m
       = (case entry_Source e of
            None \<Rightarrow> 0
          | Some s \<Rightarrow> (case source_Feed s of
               None \<Rightarrow> 0
             | Some g \<Rightarrow> count_list (report (Feed_Validate ck g)) ?m))"
      using assms(2) by (rule entry)
    show "count_list (report (Feed_Validate ck f)) ?m
          = (if feed_Author f = [] \<and> list_ex (\<lambda>e. entry_Author e = []) (feed_Entry f)
             then 1 else 0)"
      if "list_all (\<lambda>e. entry_Source e = None) (feed_Entry f)"
      using feed plain [OF that] by simp
  qed
qed

theorem Feed_author_coverage_witness:
  "Feed_sources_set two_anonymous_Feed \<and> Entry_sources_set anonymous_Entry
   \<and> never_emits accept_all ''Author must be present in Feed or in every Entry.''
   \<and> feed_Author two_anonymous_Feed = []
   \<and> map entry_Author (feed_Entry two_anonymous_Feed) = [[], []]
   \<and> map entry_Source (feed_Entry two_anonymous_Feed) = [None, None]
   \<and> count_list (report (Feed_Validate accept_all two_anonymous_Feed))
        ''Author must be present in Feed or in every Entry.'' = 1
   \<and> feed_Author authored_entries_Feed = []
   \<and> map entry_Author (feed_Entry authored_entries_Feed) = [[john], [john]]
   \<and> count_list (report (Feed_Validate accept_all authored_entries_Feed))
        ''Author must be present in Feed or in every Entry.'' = 0
   \<and> feed_Author authored_Feed = [john]
   \<and> map entry_Author (feed_Entry authored_Feed) = [[], []]
   \<and> count_list (report (Feed_Validate accept_all authored_Feed))
        ''Author must be present in Feed or in every Entry.'' = 0"
  using Feed_author_coverage [of two_anonymous_Feed anonymous_Entry accept_all]
    Feed_author_coverage [of authored_entries_Feed anonymous_Entry accept_all]
    Feed_author_coverage [of authored_Feed anonymous_Entry accept_all]
  by (simp add: two_anonymous_Feed_def authored_entries_Feed_def authored_Feed_def
      anonymous_Entry_def plain_Entry_def simple_Feed_def simple_Entry_def)

text \<open>
  C3, the claim refuted: a feed without authors whose only entry has no authors and
  embeds a source feed in the same state is reported with the issue twice.
\<close>

theorem anonymous_outer_reported_twice:
  "feed_Author anonymous_outer_Feed = []
   \<and> map entry_Author (feed_Entry anonymous_outer_Feed) = [[]]
   \<and> report (Feed_Validate accept_all anonymous_outer_Feed)
     = [''Author must be present in Feed or in every Entry.'',
        ''Entry.Source can't contain any entries.'',
        ''Author must be present in Feed or in every Entry.'']"
  by (simp add: anonymous_outer_Feed_def anonymous_inner_Feed_def inputs run)

section \<open>The source of an entry\<close>

text \<open>
  C4, as the code has it. The claim says that \<open>Entry.Validate\<close> adds
  "Entry.Source can't contain any entries." right after the \<open>Published\<close> check and
  validates the embedded feed at that same step. The issue is added there (lines
  209-213), but the embedded feed is validated as the last step (lines 229-231), after
  the \<open>Summary\<close>, \<open>Title\<close> and \<open>Updated\<close> checks: the report of an entry with a source is
  the issues up to \<open>Published\<close>, then the issue about the source's entries if it has any,
  then the issues of \<open>Summary\<close>, \<open>Title\<close> and \<open>Updated\<close>, then the whole report of the
  source feed, which holds "Feed.Title can't be empty." when that feed has no title.
\<close>

theorem Entry_source_checks:
  assumes "entry_Source e = Some s"
    and "source_Feed s = Some f"
    and "Feed_sources_set f"
  shows "returns (Entry_Validate ck e)
     \<and> report (Entry_Validate ck e)
       = Entry_issues_to_Published ck e
         @ (if feed_Entry f \<noteq> [] then [''Entry.Source can't contain any entries.''] else [])
         @ Entry_issues_Summary_to_Updated ck e
         @ report (Feed_Validate ck f)
     \<and> (feed_Title f = [] \<longrightarrow>
          ''Feed.Title can't be empty.'' \<in> set (report (Entry_Validate ck e)))"
proof (intro conjI impI)
  from assms show "returns (Entry_Validate ck e)"
    by (simp add: Entry_Validate_returns Entry_sources_set_iff [of e])
  show "report (Entry_Validate ck e)
       = Entry_issues_to_Published ck e
         @ (if feed_Entry f \<noteq> [] then [''Entry.Source can't contain any entries.''] else [])
         @ Entry_issues_Summary_to_Updated ck e
         @ report (Feed_Validate ck f)"
    using assms by (rule Entry_report_source)
  assume "feed_Title f = []"
  then have "''Feed.Title can't be empty.'' \<in> set (Feed_issues_own ck f)"
    unfolding Feed_issues_own_def by simp
  then show "''Feed.Title can't be empty.'' \<in> set (report (Entry_Validate ck e))"
    by (simp add: Entry_report_source [OF assms] Feed_report [OF assms(3)])
qed

theorem Entry_source_checks_witness:
  "entry_Source untitled_sourced_Entry = Some (Source (Some untitled_source_Feed))
   \<and> source_Feed (Source (Some untitled_source_Feed)) = Some untitled_source_Feed
   \<and> Feed_sources_set untitled_source_Feed
   \<and> feed_Title untitled_source_Feed = []
   \<and> feed_Entry untitled_source_Feed = [plain_Entry]
   \<and> returns (Entry_Validate accept_all untitled_sourced_Entry)
   \<and> ''Feed.Title can't be empty.'' \<in> set (report (Entry_Validate accept_all untitled_sourced_Entry))
   \<and> report (Entry_Validate accept_all untitled_sourced_Entry)
     = ''Entry.Source can't contain any entries.''
       # Entry_issues_Summary_to_Updated accept_all untitled_sourced_Entry
       @ report (Feed_Validate accept_all untitled_source_Feed)"
  using Entry_source_checks [of untitled_sourced_Entry "Source (Some untitled_source_Feed)"
      untitled_source_Feed accept_all]
  by (simp add: untitled_sourced_Entry_def untitled_source_Feed_def plain_Entry_def
      simple_Feed_def simple_Entry_def)
     (simp add: Entry_issues_to_Published_def inputs run)

text \<open>
  C4, the claim refuted: for an entry without title and updated whose source feed has
  an entry and no title, the source feed's issue comes after the entry's own title and
  updated issues, not before them.
\<close>

theorem source_feed_validated_last:
  "entry_Source untitled_sourced_Entry = Some (Source (Some untitled_source_Feed))
   \<and> report (Feed_Validate accept_all untitled_source_Feed) = [''Feed.Title can't be empty.'']
   \<and> report (Entry_Validate accept_all untitled_sourced_Entry)
     = [''Entry.Source can't contain any entries.'', ''Entry.Title can't be empty.'',
        ''Entry.Updated can't be empty.'', ''Feed.Title can't be empty.'']"
  by (simp add: untitled_sourced_Entry_def untitled_source_Feed_def inputs run)

section \<open>Text types in summary and content\<close>

text \<open>
  C5. \<open>Text.validate\<close> checks the type against text, html and xhtml only when it is not
  called for a content (lines 74-80), and \<open>Entry.Validate\<close> calls it with \<open>true\<close> for the
  content and \<open>false\<close> for the summary. When the source pointers are set and the checkers
  never produce this text themselves, the report of an entry holds
  "Text.Type must be either: text, html or xhtml." once exactly when its summary has a
  non-empty type other than the three, whatever its content is, plus the occurrences
  in the report of its source feed; a feed adds none of its own to those of its
  entries.
\<close>

theorem Text_Type_summary_only:
  assumes "Feed_sources_set f"
    and "Entry_sources_set e"
    and "never_emits ck ''Text.Type must be either: text, html or xhtml.''"
  shows "returns (Entry_Validate ck e)
     \<and> count_list (report (Entry_Validate ck e))
         ''Text.Type must be either: text, html or xhtml.''
       = (case entry_Summary e of
            None \<Rightarrow> 0
          | Some t \<Rightarrow> (if text_Type t \<noteq> [] \<and> text_Type t \<noteq> ''text'' \<and> text_Type t \<noteq> ''html''
                          \<and> text_Type t \<noteq> ''xhtml'' then 1 else 0))
         + (case entry_Source e of
              None \<Rightarrow> 0
            | Some s \<Rightarrow> (case source_Feed s of
                 None \<Rightarrow> 0
               | Some g \<Rightarrow> count_list (report (Feed_Validate ck g))
                   ''Text.Type must be either: text, html or xhtml.''))
     \<and> count_list (report (Feed_Validate ck f))
         ''Text.Type must be either: text, html or xhtml.''
       = sum_list (map (\<lambda>e. count_list (report (Entry_Validate ck e))
               ''Text.Type must be either: text, html or xhtml.'') (feed_Entry f))
     \<and> count_list (report (Text_validate ck t True))
         ''Text.Type must be either: text, html or xhtml.'' = 0
     \<and> count_list (report (Text_validate ck t False))
         ''Text.Type must be either: text, html or xhtml.''
       = (if text_Type t \<noteq> [] \<and> text_Type t \<noteq> ''text'' \<and> text_Type t \<noteq> ''html''
             \<and> text_Type t \<noteq> ''xhtml'' then 1 else 0)"
proof (intro conjI)
  let ?m = "''Text.Type must be either: text, html or xhtml.''"
  show "returns (Entry_Validate ck e)" using assms(2) by (rule Entry_Validate_returns)
  have "count_list (Entry_issues_Summary_to_Updated ck e) ?m
        = (case entry_Summary e of
            None \<Rightarrow> 0
          | Some t \<Rightarrow> (if text_Type t \<noteq> [] \<and> text_Type t \<noteq> ''text'' \<and> text_Type t \<noteq> ''html''
                          \<and> text_Type t \<noteq> ''xhtml'' then 1 else 0))"
    unfolding Entry_issues_Summary_to_Updated_def
    by (cases "entry_Summary e")
       (simp_all add: segment_silent [OF assms(3)] Text_validate_count [OF assms(3)]
          count_list_if del: append.simps)
  then show "count_list (report (Entry_Validate ck e)) ?m
       = (case entry_Summary e of
            None \<Rightarrow> 0
          | Some t \<Rightarrow> (if text_Type t \<noteq> [] \<and> text_Type t \<noteq> ''text'' \<and> text_Type t \<noteq> ''html''
                          \<and> text_Type t \<noteq> ''xhtml'' then 1 else 0))
         + (case entry_Source e of
              None \<Rightarrow> 0
            | Some s \<Rightarrow> (case source_Feed s of
                 None \<Rightarrow> 0
               | Some g \<Rightarrow> count_list (report (Feed_Validate ck g)) ?m))"
    by (simp add: Entry_report_count [OF assms(2)] Entry_to_Published_silent [OF assms(3)])
  show "count_list (report (Feed_Validate ck f)) ?m
       = sum_list (map (\<lambda>e. count_list (report (Entry_Validate ck e)) ?m) (feed_Entry f))"
    by (simp only: Feed_report_count [OF assms(1)] Feed_own_Text_silent [OF assms(3)] add_0)
  show "count_list (report (Text_validate ck t True)) ?m = 0"
    by (simp add: Text_validate_count [OF assms(3)])
  show "count_list (report (Text_validate ck t False)) ?m
       = (if text_Type t \<noteq> [] \<and> text_Type t \<noteq> ''text'' \<and> text_Type t \<noteq> ''html''
             \<and> text_Type t \<noteq> ''xhtml'' then 1 else 0)"
    by (simp add: Text_validate_count [OF assms(3)])
qed

theorem Text_Type_summary_only_witness:
  "Feed_sources_set blank_Feed
   \<and> Entry_sources_set invalid_summary_Entry \<and> Entry_sources_set invalid_content_Entry
   \<and> never_emits accept_all ''Text.Type must be either: text, html or xhtml.''
   \<and> text_Type invalid_Text = ''invalid''
   \<and> entry_Summary invalid_summary_Entry = Some invalid_Text
   \<and> entry_Content invalid_summary_Entry = None
   \<and> count_list (report (Entry_Validate accept_all invalid_summary_Entry))
        ''Text.Type must be either: text, html or xhtml.'' = 1
   \<and> entry_Content invalid_content_Entry = Some invalid_Text
   \<and> entry_Summary invalid_content_Entry = None
   \<and> count_list (report (Entry_Validate accept_all invalid_content_Entry))
        ''Text.Type must be either: text, html or xhtml.'' = 0"
  using Text_Type_summary_only [of blank_Feed invalid_summary_Entry accept_all]
    Text_Type_summary_only [of blank_Feed invalid_content_Entry accept_all]
  by (simp add: invalid_summary_Entry_def invalid_content_Entry_def invalid_Text_def
      blank_Feed_def simple_Feed_def simple_Entry_def)

section \<open>Required fields\<close>

text \<open>
  C6. A feed with an empty id, title or updated is reported with "Feed.ID can't be
  empty.", "Feed.Title can't be empty.", "Feed.Updated can't be empty." respectively,
  and an entry with "Entry.ID can't be empty.", "Entry.Title can't be empty.",
  "Entry.Updated can't be empty."; the time parser is never asked about the empty
  string: checkers that differ only in what the time parser answers on the empty string
  give the same outcome, while the parser's error on a non-empty updated is in the
  report.
\<close>

theorem required_fields_reported:
  assumes "Feed_sources_set f"
    and "Entry_sources_set e"
  shows "(feed_ID f = [] \<longrightarrow> ''Feed.ID can't be empty.'' \<in> set (report (Feed_Validate ck f)))
     \<and> (feed_Title f = [] \<longrightarrow> ''Feed.Title can't be empty.'' \<in> set (report (Feed_Validate ck f)))
     \<and> (feed_Updated f = [] \<longrightarrow>
          ''Feed.Updated can't be empty.'' \<in> set (report (Feed_Validate ck f)))
     \<and> (entry_ID e = [] \<longrightarrow> ''Entry.ID can't be empty.'' \<in> set (report (Entry_Validate ck e)))
     \<and> (entry_Title e = [] \<longrightarrow>
          ''Entry.Title can't be empty.'' \<in> set (report (Entry_Validate ck e)))
     \<and> (entry_Updated e = [] \<longrightarrow>
          ''Entry.Updated can't be empty.'' \<in> set (report (Entry_Validate ck e)))
     \<and> (url_Parse ck' = url_Parse ck \<and> mail_ParseAddress ck' = mail_ParseAddress ck
          \<and> (\<forall>s. s \<noteq> [] \<longrightarrow> time_Parse ck' s = time_Parse ck s) \<longrightarrow>
          Feed_Validate ck' f = Feed_Validate ck f \<and> Entry_Validate ck' e = Entry_Validate ck e)
     \<and> (feed_Updated f \<noteq> [] \<longrightarrow>
          (\<forall>m. time_Parse ck (feed_Updated f) = Some m
                \<longrightarrow> m \<in> set (report (Feed_Validate ck f))))
     \<and> (entry_Updated e \<noteq> [] \<longrightarrow>
          (\<forall>m. time_Parse ck (entry_Updated e) = Some m
                \<longrightarrow> m \<in> set (report (Entry_Validate ck e))))"
proof -
  have feed: "m \<in> set (report (Feed_Validate ck f))" if "m \<in> set (Feed_issues_own ck f)" for m
    using that by (simp add: Feed_report [OF assms(1)])
  have entry: "m \<in> set (report (Entry_Validate ck e))"
    if "m \<in> set (Entry_issues_to_Published ck e) \<or> m \<in> set (Entry_issues_Summary_to_Updated ck e)"
    for m
  proof (cases "entry_Source e")
    case None
    with that show ?thesis by (auto simp: Entry_report_no_source)
  next
    case (Some s)
    with assms(2) obtain g where g: "source_Feed s = Some g" "Feed_sources_set g"
      by (auto simp: Entry_sources_set_iff [of e] split: option.splits)
    from that show ?thesis by (auto simp: Entry_report_source [OF Some g])
  qed
  show ?thesis
  proof (intro conjI impI allI)
    assume "feed_ID f = []"
    then show "''Feed.ID can't be empty.'' \<in> set (report (Feed_Validate ck f))"
      by (intro feed) (simp add: Feed_issues_own_def)
  next
    assume "feed_Title f = []"
    then show "''Feed.Title can't be empty.'' \<in> set (report (Feed_Validate ck f))"
      by (intro feed) (simp add: Feed_issues_own_def)
  next
    assume "feed_Updated f = []"
    then show "''Feed.Updated can't be empty.'' \<in> set (report (Feed_Validate ck f))"
      by (intro feed) (simp add: Feed_issues_own_def)
  next
    assume "entry_ID e = []"
    then show "''Entry.ID can't be empty.'' \<in> set (report (Entry_Validate ck e))"
      by (intro entry) (simp add: Entry_issues_to_Published_def)
  next
    assume "entry_Title e = []"
    then show "''Entry.Title can't be empty.'' \<in> set (report (Entry_Validate ck e))"
      by (intro entry) (simp add: Entry_issues_Summary_to_Updated_def)
  next
    assume "entry_Updated e = []"
    then show "''Entry.Updated can't be empty.'' \<in> set (report (Entry_Validate ck e))"
      by (intro entry) (simp add: Entry_issues_Summary_to_Updated_def)
  next
    assume "url_Parse ck' = url_Parse ck \<and> mail_ParseAddress ck' = mail_ParseAddress ck
          \<and> (\<forall>s. s \<noteq> [] \<longrightarrow> time_Parse ck' s = time_Parse ck s)"
    then show "Feed_Validate ck' f = Feed_Validate ck f"
      by (intro Validate_agree) simp_all
  next
    assume "url_Parse ck' = url_Parse ck \<and> mail_ParseAddress ck' = mail_ParseAddress ck
          \<and> (\<forall>s. s \<noteq> [] \<longrightarrow> time_Parse ck' s = time_Parse ck s)"
    then show "Entry_Validate ck' e = Entry_Validate ck e"
      by (intro Validate_agree) simp_all
  next
    fix m
    assume "feed_Updated f \<noteq> []" and "time_Parse ck (feed_Updated f) = Some m"
    then show "m \<in> set (report (Feed_Validate ck f))"
      by (intro feed) (simp add: Feed_issues_own_def TimeStr_issue_reported)
  next
    fix m
    assume "entry_Updated e \<noteq> []" and "time_Parse ck (entry_Updated e) = Some m"
    then show "m \<in> set (report (Entry_Validate ck e))"
      by (intro entry) (simp add: Entry_issues_Summary_to_Updated_def TimeStr_issue_reported)
  qed
qed

theorem required_fields_reported_witness:
  "Feed_sources_set blank_Feed \<and> Entry_sources_set blank_Entry
   \<and> feed_ID blank_Feed = [] \<and> feed_Title blank_Feed = [] \<and> feed_Updated blank_Feed = []
   \<and> entry_ID blank_Entry = [] \<and> entry_Title blank_Entry = [] \<and> entry_Updated blank_Entry = []
   \<and> ''Feed.ID can't be empty.'' \<in> set (report (Feed_Validate accept_all blank_Feed))
   \<and> ''Feed.Title can't be empty.'' \<in> set (report (Feed_Validate accept_all blank_Feed))
   \<and> ''Feed.Updated can't be empty.'' \<in> set (report (Feed_Validate accept_all blank_Feed))
   \<and> ''Entry.ID can't be empty.'' \<in> set (report (Entry_Validate accept_all blank_Entry))
   \<and> ''Entry.Title can't be empty.'' \<in> set (report (Entry_Validate accept_all blank_Entry))
   \<and> ''Entry.Updated can't be empty.'' \<in> set (report (Entry_Validate accept_all blank_Entry))
   \<and> time_Parse reject_empty_time [] = Some ''parsing time: cannot parse''
   \<and> Feed_Validate reject_empty_time blank_Feed = Feed_Validate accept_all blank_Feed
   \<and> Entry_Validate reject_empty_time blank_Entry = Entry_Validate accept_all blank_Entry
   \<and> Feed_sources_set stale_Feed \<and> Entry_sources_set stale_Entry
   \<and> feed_Updated stale_Feed = ''yesterday'' \<and> entry_Updated stale_Entry = ''yesterday''
   \<and> time_Parse reject_other_times ''yesterday'' = Some ''parsing time: cannot parse''
   \<and> ''parsing time: cannot parse'' \<in> set (report (Feed_Validate reject_other_times stale_Feed))
   \<and> ''parsing time: cannot parse'' \<in> set (report (Entry_Validate reject_other_times stale_Entry))"
  using required_fields_reported [of blank_Feed blank_Entry accept_all reject_empty_time]
    required_fields_reported [of stale_Feed stale_Entry reject_other_times reject_other_times]
  by (simp add: blank_Feed_def blank_Entry_def stale_Feed_def stale_Entry_def simple_Feed_def
      simple_Entry_def)
     (simp add: reject_empty_time_def reject_other_times_def accept_all_def)

end
